theory Spec2Isabelle
  imports Complex_Main "HOL-Library.Word"
begin

section \<open>Data model\<close>

text \<open>
  The model import pipeline of the web UI: \<^verbatim>\<open>web-ui/src/lib/storage.ts\<close> (the
  IndexedDB wrapper \<^verbatim>\<open>modelStorage\<close>), \<^verbatim>\<open>web-ui/src/lib/constants.ts\<close>
  and \<^verbatim>\<open>web-ui/src/stores/model-store.ts\<close> (the zustand store with
  \<^verbatim>\<open>importModel\<close>, \<^verbatim>\<open>verifyModel\<close>, \<^verbatim>\<open>resetModel\<close>, \<^verbatim>\<open>checkStorageQuota\<close>).

  A \<^verbatim>\<open>Blob\<close> is its byte sequence; a \<^verbatim>\<open>File\<close> is a blob with a name, and its
  \<^verbatim>\<open>size\<close> is the length of the byte sequence.  Byte counts are natural numbers
  (JavaScript numbers are exact on integers below \<open>2 ^ 53\<close>, far above 15 GiB).
\<close>

type_synonym byte = "8 word"
type_synonym Blob = "byte list"

record File =
  name :: string
  content :: Blob

definition file_size :: "File \<Rightarrow> nat" where
  "file_size file = length (content file)"

text \<open>
  \<^verbatim>\<open>blob.slice(start, end)\<close> for non-negative arguments: both ends are clamped to the
  size of the blob and the span is never negative.
\<close>

definition slice :: "Blob \<Rightarrow> nat \<Rightarrow> nat \<Rightarrow> Blob" where
  "slice b start stop =
     (let n = length b;
          relativeStart = min start n;
          relativeEnd = min stop n;
          span = relativeEnd - relativeStart
      in take span (drop relativeStart b))"

text \<open>\<^verbatim>\<open>s.endsWith(suffix)\<close>.\<close>

definition endsWith :: "string \<Rightarrow> string \<Rightarrow> bool" where
  "endsWith s suffix =
     (length suffix \<le> length s \<and> drop (length s - length suffix) s = suffix)"

text \<open>
  Whatever a \<^verbatim>\<open>throw\<close> or a rejected promise carries: an \<^verbatim>\<open>Error\<close> object with its
  message (a \<^verbatim>\<open>DOMException\<close> of IndexedDB is one), or some other value.
\<close>

datatype thrown = Error string | NonError

subsection \<open>constants.ts\<close>

record KnownModel =
  model_name :: string
  model_size :: string
  model_source :: string

definition KNOWN_MODEL_HASHES :: "string \<rightharpoonup> KnownModel" where
  "KNOWN_MODEL_HASHES =
     [''e3b0c44298fc1c149afbf4c8996fb92427ae41e4649b934ca495991b7852b855'' \<mapsto>
        \<lparr>model_name = ''test-model.gguf'', model_size = ''~1KB'', model_source = ''Test Model''\<rparr>]"

definition MIN_SIZE :: nat where
  "MIN_SIZE = 100 * 1024 * 1024"

definition MAX_SIZE :: nat where
  "MAX_SIZE = 15 * 1024 * 1024 * 1024"

definition EXPECTED_EXTENSION :: string where
  "EXPECTED_EXTENSION = ''.gguf''"

definition IMPORT_ERROR :: string where
  "IMPORT_ERROR = ''Failed to import model''"

definition FILE_TOO_LARGE :: string where
  "FILE_TOO_LARGE = ''File size too large. Please select a smaller model file.''"

definition INVALID_FILE_TYPE :: string where
  "INVALID_FILE_TYPE = ''Please select a valid GGUF model file (.gguf extension)''"

definition STORAGE_QUOTA_EXCEEDED :: string where
  "STORAGE_QUOTA_EXCEEDED = ''Not enough storage space. Please free up space and try again.''"

subsection \<open>The reactive status object\<close>

datatype VerificationStatus = Verified | Unverified | Failed

record ModelStatus =
  isImported :: bool
  isLoaded :: bool
  fileName :: "string option"
  fileSize :: "nat option"
  sha256 :: "string option"
  importProgress :: rat
  error :: "string option"
  isVerified :: "bool option"
  verificationStatus :: "VerificationStatus option"

text \<open>
  A \<^verbatim>\<open>Partial<ModelStatus>\<close> is the list of the keys it carries, in order, each with
  its value (a key may be present with the value \<^verbatim>\<open>undefined\<close>); the object spread
  \<^verbatim>\<open>{ ...state.modelStatus, ...status }\<close> assigns them from left to right.
  \<^verbatim>\<open>importProgress\<close> is kept as the exact rational value of the expression the
  source evaluates in double precision.
\<close>

datatype StatusKey =
    K_isImported bool
  | K_isLoaded bool
  | K_fileName "string option"
  | K_fileSize "nat option"
  | K_sha256 "string option"
  | K_importProgress rat
  | K_error "string option"
  | K_isVerified "bool option"
  | K_verificationStatus "VerificationStatus option"

fun assign :: "StatusKey \<Rightarrow> ModelStatus \<Rightarrow> ModelStatus" where
  "assign (K_isImported v) s = s\<lparr>isImported := v\<rparr>"
| "assign (K_isLoaded v) s = s\<lparr>isLoaded := v\<rparr>"
| "assign (K_fileName v) s = s\<lparr>fileName := v\<rparr>"
| "assign (K_fileSize v) s = s\<lparr>fileSize := v\<rparr>"
| "assign (K_sha256 v) s = s\<lparr>sha256 := v\<rparr>"
| "assign (K_importProgress v) s = s\<lparr>importProgress := v\<rparr>"
| "assign (K_error v) s = s\<lparr>error := v\<rparr>"
| "assign (K_isVerified v) s = s\<lparr>isVerified := v\<rparr>"
| "assign (K_verificationStatus v) s = s\<lparr>verificationStatus := v\<rparr>"

subsection \<open>The database and the platform\<close>

record Metadata =
  meta_sha256 :: string
  meta_fileName :: string

record StoredModel =
  stored_file :: File
  stored_metadata :: Metadata

text \<open>
  The calls made on \<^verbatim>\<open>modelStorage\<close>, as they are issued (a call that throws
  is a call all the same).
\<close>

datatype StorageCall =
    StoreModel
  | GetModel
  | DeleteModel
  | GetStorageQuota
  | ClearChunks
  | StoreModelChunk nat Blob
  | CalculateSHA256FromChunks

text \<open>
  The state the code reads and writes: the store's \<^verbatim>\<open>modelStatus\<close> (persisted to
  localStorage by the \<^verbatim>\<open>persist\<close> middleware), the two object stores of
  \<^verbatim>\<open>ClarityDB\<close>, the sequence of status objects the store has published to its
  subscribers (one for each \<^verbatim>\<open>set\<close>), and the storage calls issued so far.
  An IndexedDB object store holds its records in ascending key order; \<^verbatim>\<open>chunkStore\<close>
  is the list of its (offset, blob) records in that order.
\<close>

record AppState =
  modelStatus :: ModelStatus
  modelStore :: "string \<rightharpoonup> StoredModel"
  chunkStore :: "(nat \<times> Blob) list"
  published :: "ModelStatus list"
  calls :: "StorageCall list"

text \<open>
  What the platform does in one run, beyond the code's control: what
  \<^verbatim>\<open>navigator.storage\<close> offers (no storage manager, an \<^verbatim>\<open>estimate()\<close> that rejects,
  or an estimate whose \<^verbatim>\<open>usage\<close> and \<^verbatim>\<open>quota\<close> may each be undefined); which
  database requests fail, and with what (\<^verbatim>\<open>put\<close>, \<^verbatim>\<open>get\<close> and \<^verbatim>\<open>delete\<close> on the model
  store, \<^verbatim>\<open>clear\<close>, \<^verbatim>\<open>put\<close> at a given offset and \<^verbatim>\<open>getAll\<close> on the chunk store);
  whether reading the reassembled blob or digesting it fails; and the SHA-256 function
  of \<^verbatim>\<open>crypto.subtle\<close>, a parameter of the model.
\<close>

datatype StorageManager =
    NoStorageManager
  | EstimateRejects thrown
  | Estimate "nat option" "nat option"

record Env =
  navigatorStorage :: StorageManager
  putModelFault :: "thrown option"
  getFault :: "thrown option"
  deleteFault :: "thrown option"
  clearFault :: "thrown option"
  putFault :: "nat \<Rightarrow> thrown option"
  getAllFault :: "thrown option"
  digestFault :: "thrown option"
  digestSHA256 :: "Blob \<Rightarrow> byte list"

section \<open>storage.ts: modelStorage\<close>

text \<open>
  \<^verbatim>\<open>db.put(CHUNK_STORE_NAME, chunk, offset)\<close>: an upsert that keeps the records in
  ascending key order.  \<^verbatim>\<open>db.getAll(CHUNK_STORE_NAME)\<close>: the values in that order.
\<close>

fun idb_put :: "nat \<Rightarrow> 'v \<Rightarrow> (nat \<times> 'v) list \<Rightarrow> (nat \<times> 'v) list" where
  "idb_put k v [] = [(k, v)]"
| "idb_put k v ((k', v') # rest) =
     (if k < k' then (k, v) # (k', v') # rest
      else if k = k' then (k, v) # rest
      else (k', v') # idb_put k v rest)"

definition idb_getAll :: "(nat \<times> 'v) list \<Rightarrow> 'v list" where
  "idb_getAll tbl = map snd tbl"

definition called :: "StorageCall \<Rightarrow> AppState \<Rightarrow> AppState" where
  "called c st = st\<lparr>calls := calls st @ [c]\<rparr>"

definition storeModel ::
  "Env \<Rightarrow> File \<Rightarrow> Metadata \<Rightarrow> AppState \<Rightarrow> (thrown + unit) \<times> AppState" where
  "storeModel env f m st =
     (let st1 = called StoreModel st in
      case putModelFault env of
        Some e \<Rightarrow> (Inl e, st1)
      | None \<Rightarrow>
          (Inr (), st1\<lparr>modelStore :=
             (modelStore st1)(''model'' \<mapsto> \<lparr>stored_file = f, stored_metadata = m\<rparr>)\<rparr>))"

definition getModel :: "Env \<Rightarrow> AppState \<Rightarrow> (thrown + StoredModel option) \<times> AppState" where
  "getModel env st =
     (let st1 = called GetModel st in
      case getFault env of
        Some e \<Rightarrow> (Inl e, st1)
      | None \<Rightarrow> (Inr (modelStore st1 ''model''), st1))"

definition deleteModel :: "Env \<Rightarrow> AppState \<Rightarrow> (thrown + unit) \<times> AppState" where
  "deleteModel env st =
     (let st1 = called DeleteModel st in
      case deleteFault env of
        Some e \<Rightarrow> (Inl e, st1)
      | None \<Rightarrow> (Inr (), st1\<lparr>modelStore := (modelStore st1)(''model'' := None)\<rparr>))"

definition getStorageQuota ::
  "Env \<Rightarrow> AppState \<Rightarrow> (thrown + nat option \<times> nat option) \<times> AppState" where
  "getStorageQuota env st =
     (let st1 = called GetStorageQuota st in
      case navigatorStorage env of
        Estimate usage quota \<Rightarrow> (Inr (usage, quota), st1)
      | EstimateRejects e \<Rightarrow> (Inl e, st1)
      | NoStorageManager \<Rightarrow> (Inr (Some 0, Some 0), st1))"

definition clearChunks :: "Env \<Rightarrow> AppState \<Rightarrow> (thrown + unit) \<times> AppState" where
  "clearChunks env st =
     (let st1 = called ClearChunks st in
      case clearFault env of
        Some e \<Rightarrow> (Inl e, st1)
      | None \<Rightarrow> (Inr (), st1\<lparr>chunkStore := []\<rparr>))"

definition storeModelChunk ::
  "Env \<Rightarrow> Blob \<Rightarrow> nat \<Rightarrow> AppState \<Rightarrow> (thrown + unit) \<times> AppState" where
  "storeModelChunk env chunk offset st =
     (let st1 = called (StoreModelChunk offset chunk) st in
      case putFault env offset of
        Some e \<Rightarrow> (Inl e, st1)
      | None \<Rightarrow> (Inr (), st1\<lparr>chunkStore := idb_put offset chunk (chunkStore st1)\<rparr>))"

text \<open>
  \<^verbatim>\<open>n.toString(radix)\<close> for a non-negative integer, and \<^verbatim>\<open>s.padStart(n, c)\<close>.
  JavaScript throws a \<^verbatim>\<open>RangeError\<close> for a radix outside 2..36; the code only
  uses 16 and, in a template string, the default 10, and the model answers the empty
  string for any other.
\<close>

definition digitChar :: "nat \<Rightarrow> char" where
  "digitChar d = ''0123456789abcdefghijklmnopqrstuvwxyz'' ! d"

function toStringRadix :: "nat \<Rightarrow> nat \<Rightarrow> string" where
  "toStringRadix radix n =
     (if radix < 2 \<or> 36 < radix then []
      else if n < radix then [digitChar n]
      else toStringRadix radix (n div radix) @ [digitChar (n mod radix)])"
  by pat_completeness auto
termination
  by (relation "measure (\<lambda>(radix, n). n)") auto

definition padStart :: "nat \<Rightarrow> char \<Rightarrow> string \<Rightarrow> string" where
  "padStart targetLength c s = replicate (targetLength - length s) c @ s"

text \<open>
  \<^verbatim>\<open>hashArray.map((b) => b.toString(16).padStart(2, '0')).join('')\<close>.
\<close>

definition hexEncode :: "byte list \<Rightarrow> string" where
  "hexEncode hashArray =
     concat (map (\<lambda>b. padStart 2 (CHR ''0'') (toStringRadix 16 (unat b))) hashArray)"

definition calculateSHA256FromChunks ::
  "Env \<Rightarrow> AppState \<Rightarrow> (thrown + string) \<times> AppState" where
  "calculateSHA256FromChunks env st =
     (let st1 = called CalculateSHA256FromChunks st in
      case getAllFault env of
        Some e \<Rightarrow> (Inl e, st1)
      | None \<Rightarrow>
          (let chunks = idb_getAll (chunkStore st1);
               blob = concat chunks
           in case digestFault env of
                Some e \<Rightarrow> (Inl e, st1)
              | None \<Rightarrow>
                  (let hashArray = digestSHA256 env blob
                   in (Inr (hexEncode hashArray), st1))))"

section \<open>model-store.ts: useModelStore\<close>

definition initialStatus :: ModelStatus where
  "initialStatus =
     \<lparr>isImported = False, isLoaded = False, fileName = None, fileSize = None,
      sha256 = None, importProgress = 0, error = None, isVerified = None,
      verificationStatus = Some Unverified\<rparr>"

definition setModelStatus :: "StatusKey list \<Rightarrow> AppState \<Rightarrow> AppState" where
  "setModelStatus status st =
     (let s = fold assign status (modelStatus st)
      in st\<lparr>modelStatus := s, published := published st @ [s]\<rparr>)"

record QuotaCheck =
  hasQuota :: bool
  usage :: nat
  quota :: nat

text \<open>\<^verbatim>\<open>x ?? d\<close>.\<close>

definition nullish :: "'a option \<Rightarrow> 'a \<Rightarrow> 'a" where
  "nullish x d = (case x of None \<Rightarrow> d | Some v \<Rightarrow> v)"

definition checkStorageQuota :: "Env \<Rightarrow> AppState \<Rightarrow> QuotaCheck \<times> AppState" where
  "checkStorageQuota env st =
     (case getStorageQuota env st of
        (Inr (usage0, quota0), st1) \<Rightarrow>
          (let hasQuota0 = (nullish quota0 0 > nullish usage0 0 + 2 * 1024 * 1024 * 1024)
           in (\<lparr>hasQuota = hasQuota0, usage = nullish usage0 0, quota = nullish quota0 0\<rparr>, st1))
      | (Inl e, st1) \<Rightarrow> (\<lparr>hasQuota = False, usage = 0, quota = 0\<rparr>, st1))"

definition CHUNK_SIZE :: nat where
  "CHUNK_SIZE = 16 * 1024 * 1024"

text \<open>
  The loop of step 3, from the current \<^verbatim>\<open>offset\<close>; it returns the offset it
  ends with, or what \<^verbatim>\<open>storeModelChunk\<close> threw.
\<close>

function writeLoop :: "Env \<Rightarrow> File \<Rightarrow> nat \<Rightarrow> AppState \<Rightarrow> (thrown + nat) \<times> AppState" where
  "writeLoop env file offset st =
     (if offset < file_size file then
        (let chunk = slice (content file) offset (offset + CHUNK_SIZE) in
         case storeModelChunk env chunk offset st of
           (Inl e, st1) \<Rightarrow> (Inl e, st1)
         | (Inr u, st1) \<Rightarrow>
             (let offset1 = offset + length chunk
              in writeLoop env file offset1
                   (setModelStatus
                      [K_importProgress (of_nat offset1 / of_nat (file_size file) * 80)] st1)))
      else (Inr offset, st))"
  by pat_completeness auto
termination
  by (relation "measure (\<lambda>(env, file, offset, st). file_size file - offset)")
     (auto simp: slice_def file_size_def CHUNK_SIZE_def)

text \<open>The state after one iteration of the loop whose write succeeded.\<close>

definition writeStep :: "File \<Rightarrow> nat \<Rightarrow> AppState \<Rightarrow> AppState" where
  "writeStep file offset st =
     (let chunk = take CHUNK_SIZE (drop offset (content file)) in
      setModelStatus
        [K_importProgress (of_nat (offset + length chunk) / of_nat (file_size file) * 80)]
        ((called (StoreModelChunk offset chunk) st)
           \<lparr>chunkStore := idb_put offset chunk (chunkStore st)\<rparr>))"

text \<open>The state in which the loop starts: after the quota check and the clearing.\<close>

definition afterClear :: "AppState \<Rightarrow> AppState" where
  "afterClear st = (called ClearChunks (called GetStorageQuota st))\<lparr>chunkStore := []\<rparr>"

definition showInt :: "int \<Rightarrow> string" where
  "showInt i = (if i < 0 then CHR ''-'' # toStringRadix 10 (nat (- i)) else toStringRadix 10 (nat i))"

text \<open>
  Steps 5 and 6 of \<^verbatim>\<open>importModel\<close>: the lookup of the digest in
  \<^verbatim>\<open>KNOWN_MODEL_HASHES\<close> and the final status.  (The digest is a string of
  hexadecimal digits, so the property lookup on the object literal never reaches a
  property inherited from \<^verbatim>\<open>Object.prototype\<close>: the registry is its own keys.)
\<close>

definition importModel_classify :: "File \<Rightarrow> string \<Rightarrow> AppState \<Rightarrow> AppState" where
  "importModel_classify file sha st =
     (let knownModel = KNOWN_MODEL_HASHES sha;
          isVerified = (knownModel \<noteq> None)
      in setModelStatus
           [K_isImported True, K_isLoaded True,
            K_fileName (Some (name file)),
            K_fileSize (Some (file_size file)),
            K_sha256 (Some sha),
            K_importProgress 100,
            K_error None,
            K_verificationStatus (Some (if isVerified then Verified else Unverified))]
           st)"

text \<open>The body of the \<^verbatim>\<open>try\<close> block of \<^verbatim>\<open>importModel\<close>, after the status reset.\<close>

definition importModel_try :: "Env \<Rightarrow> File \<Rightarrow> AppState \<Rightarrow> (thrown + unit) \<times> AppState" where
  "importModel_try env file st =
     (if \<not> endsWith (name file) EXPECTED_EXTENSION then (Inl (Error INVALID_FILE_TYPE), st)
      else if file_size file < MIN_SIZE then
        (Inl (Error ''File too small. Please select a valid model file.''), st)
      else if file_size file > MAX_SIZE then (Inl (Error FILE_TOO_LARGE), st)
      else
        (case checkStorageQuota env st of (q, st2) \<Rightarrow>
           if \<not> hasQuota q then
             (let availableGB = (int (quota q) - int (usage q)) div (1024 * 1024 * 1024)
              in (Inl (Error (STORAGE_QUOTA_EXCEEDED @ '' (Available: '' @ showInt availableGB @ ''GB)'')),
                  st2))
           else
             (case clearChunks env st2 of
                (Inl e, st3) \<Rightarrow> (Inl e, st3)
              | (Inr u, st3) \<Rightarrow>
                  (case writeLoop env file 0 st3 of
                     (Inl e, st4) \<Rightarrow> (Inl e, st4)
                   | (Inr offset, st4) \<Rightarrow>
                       (case calculateSHA256FromChunks env st4 of
                          (Inl e, st5) \<Rightarrow> (Inl e, st5)
                        | (Inr sha, st5) \<Rightarrow>
                            (Inr (),
                             importModel_classify file sha
                               (setModelStatus [K_importProgress 90] st5)))))))"

definition importModel :: "Env \<Rightarrow> File \<Rightarrow> AppState \<Rightarrow> (thrown + unit) \<times> AppState" where
  "importModel env file st =
     (case importModel_try env file
             (setModelStatus
                [K_importProgress 0, K_error None, K_verificationStatus (Some Unverified)] st) of
        (Inr u, st1) \<Rightarrow> (Inr u, st1)
      | (Inl e, st1) \<Rightarrow>
          (let errorMessage = (case e of Error message \<Rightarrow> message | NonError \<Rightarrow> IMPORT_ERROR)
           in (Inl e,
               setModelStatus
                 [K_error (Some errorMessage), K_importProgress 0,
                  K_verificationStatus (Some Failed)] st1)))"

definition verifyModel :: "Env \<Rightarrow> AppState \<Rightarrow> (thrown + bool) \<times> AppState" where
  "verifyModel env st =
     (if \<not> isImported (modelStatus st) then (Inr False, st)
      else
        (case getModel env st of
           (Inr storedModel, st1) \<Rightarrow>
             (case storedModel of
                None \<Rightarrow> (Inr False, st1)
              | Some m \<Rightarrow>
                  (Inr (Some (meta_sha256 (stored_metadata m)) = sha256 (modelStatus st)), st1))
         | (Inl e, st1) \<Rightarrow> (Inr False, st1)))"

definition resetModel :: "Env \<Rightarrow> AppState \<Rightarrow> (thrown + unit) \<times> AppState" where
  "resetModel env st =
     (let st1 = (case deleteModel env st of (Inr u, st1) \<Rightarrow> st1 | (Inl e, st1) \<Rightarrow> st1);
          s = \<lparr>isImported = False, isLoaded = False, fileName = None, fileSize = None,
               sha256 = None, importProgress = 0, error = None, isVerified = None,
               verificationStatus = Some Unverified\<rparr>
      in (Inr (), st1\<lparr>modelStatus := s, published := published st1 @ [s]\<rparr>))"

section \<open>ModelImport.tsx: the verification badge\<close>



section \<open>The chunking scheme, as the specification words it\<close>

text \<open>
  The source is cut into fixed-size windows, the final window possibly shorter,
  starting at the given offset and advancing by the length of the window just cut;
  each window is keyed by its offset.
\<close>

function windows :: "nat \<Rightarrow> nat \<Rightarrow> Blob \<Rightarrow> (nat \<times> Blob) list" where
  "windows cs offset b =
     (if b = [] \<or> cs = 0 then []
      else (offset, take cs b) # windows cs (offset + length (take cs b)) (drop cs b))"
  by pat_completeness auto
termination
  by (relation "measure (\<lambda>(cs, offset, b). length b)") auto

text \<open>
  A sequence of writes advances from \<open>offset\<close> to \<open>final\<close>: every write is at the
  running offset, its slice is not empty and at most \<open>cs\<close> bytes long (exactly \<open>cs\<close>
  unless it is the last one), and the running offset grows by exactly the length of
  the slice just written.
\<close>

fun advances :: "nat \<Rightarrow> nat \<Rightarrow> (nat \<times> Blob) list \<Rightarrow> nat \<Rightarrow> bool" where
  "advances cs offset [] final = (offset = final)"
| "advances cs offset ((k, c) # rest) final =
     (k = offset \<and> 0 < length c \<and> length c \<le> cs \<and> (rest = [] \<or> length c = cs) \<and>
      advances cs (offset + length c) rest final)"

text \<open>
  The progress values of the write phase: after each chunk,
  \<open>(bytesWrittenSoFar / totalBytes) * 80\<close>.
\<close>

fun writeProgress :: "nat \<Rightarrow> nat \<Rightarrow> Blob list \<Rightarrow> rat list" where
  "writeProgress totalBytes written [] = []"
| "writeProgress totalBytes written (c # cs) =
     (of_nat (written + length c) / of_nat totalBytes * 80) #
       writeProgress totalBytes (written + length c) cs"

text \<open>The progress values published between two states, in order.\<close>

definition sessionProgress :: "AppState \<Rightarrow> AppState \<Rightarrow> rat list" where
  "sessionProgress st st' = map importProgress (drop (length (published st)) (published st'))"

section \<open>Sample inputs\<close>

text \<open>
  A platform on which nothing fails: 50 GiB of quota, none of it used, and a digest
  function \<open>h\<close>.
\<close>

definition quietEnv :: "(Blob \<Rightarrow> byte list) \<Rightarrow> Env" where
  "quietEnv h =
     \<lparr>navigatorStorage = Estimate (Some 0) (Some (50 * 1024 * 1024 * 1024)),
      putModelFault = None, getFault = None, deleteFault = None, clearFault = None,
      putFault = (\<lambda>offset. None), getAllFault = None, digestFault = None,
      digestSHA256 = h\<rparr>"

text \<open>A digest function that answers 32 zero bytes, where a closed term needs one.\<close>

definition zeroDigest :: "Blob \<Rightarrow> byte list" where
  "zeroDigest b = replicate 32 0"

text \<open>A file of 100 MiB of zero bytes, named \<^verbatim>\<open>model.gguf\<close>.\<close>

definition zerosFile :: File where
  "zerosFile = \<lparr>name = ''model.gguf'', content = replicate (100 * 1024 * 1024) 0\<rparr>"

text \<open>The store as it is created, over a database that \<^verbatim>\<open>upgrade\<close> has just set up.\<close>

definition freshState :: AppState where
  "freshState =
     \<lparr>modelStatus = initialStatus, modelStore = Map.empty, chunkStore = [],
      published = [], calls = []\<rparr>"

text \<open>The state after the sample file has been imported on the quiet platform.\<close>

definition importedState :: "(Blob \<Rightarrow> byte list) \<Rightarrow> AppState" where
  "importedState h = snd (importModel (quietEnv h) zerosFile freshState)"

text \<open>The quiet platform, but the digest computation fails.\<close>

definition hashFailEnv :: Env where
  "hashFailEnv = (quietEnv zeroDigest)\<lparr>digestFault := Some (Error ''digest failed'')\<rparr>"

text \<open>The quiet platform, but the write at offset 16 MiB fails.\<close>

definition putFailEnv :: Env where
  "putFailEnv =
     (quietEnv zeroDigest)
       \<lparr>putFault := (\<lambda>offset. if offset = 16 * 1024 * 1024 then Some (Error ''put failed'') else None)\<rparr>"

text \<open>
  The states the application can be in: \<^verbatim>\<open>storeModel\<close> has no caller, and the
  other operations of the store are called in any order, on any platform.
\<close>

inductive reachable :: "AppState \<Rightarrow> bool" where
  fresh: "reachable freshState"
| afterImport: "reachable st \<Longrightarrow> reachable (snd (importModel env file st))"
| afterVerify: "reachable st \<Longrightarrow> reachable (snd (verifyModel env st))"
| afterReset: "reachable st \<Longrightarrow> reachable (snd (resetModel env st))"
| afterQuota: "reachable st \<Longrightarrow> reachable (snd (checkStorageQuota env st))"
| afterSet: "reachable st \<Longrightarrow> reachable (setModelStatus status st)"

section \<open>The write loop\<close>

declare windows.simps [simp del]
declare writeLoop.simps [simp del]

lemma slice_window:
  "offset \<le> length b \<Longrightarrow> slice b offset (offset + cs) = take cs (drop offset b)"
  by (auto simp: slice_def Let_def min_def)

lemma windows_Nil [simp]: "windows cs offset [] = []"
  by (simp add: windows.simps)

lemma windows_Cons:
  "b \<noteq> [] \<Longrightarrow> 0 < cs \<Longrightarrow>
   windows cs offset b = (offset, take cs b) # windows cs (offset + length (take cs b)) (drop cs b)"
  by (subst windows.simps) simp

lemma CHUNK_SIZE_pos: "0 < CHUNK_SIZE"
  by (simp add: CHUNK_SIZE_def)

lemma writeLoop_done:
  "\<not> offset < file_size file \<Longrightarrow> writeLoop env file offset st = (Inr offset, st)"
  by (subst writeLoop.simps) simp

lemma writeLoop_throw:
  "offset < file_size file \<Longrightarrow> putFault env offset = Some e \<Longrightarrow>
   writeLoop env file offset st =
     (Inl e, called (StoreModelChunk offset (take CHUNK_SIZE (drop offset (content file)))) st)"
  by (subst writeLoop.simps)
     (simp add: storeModelChunk_def slice_window file_size_def Let_def)

lemma writeLoop_step:
  "offset < file_size file \<Longrightarrow> putFault env offset = None \<Longrightarrow>
   writeLoop env file offset st =
     writeLoop env file (offset + length (take CHUNK_SIZE (drop offset (content file))))
       (writeStep file offset st)"
  by (subst writeLoop.simps)
     (simp add: storeModelChunk_def slice_window file_size_def Let_def writeStep_def called_def)

lemma chunk_length:
  "offset < file_size file \<Longrightarrow>
   0 < length (take CHUNK_SIZE (drop offset (content file))) \<and>
   offset + length (take CHUNK_SIZE (drop offset (content file))) \<le> file_size file"
  by (simp add: file_size_def CHUNK_SIZE_def)

lemma writeLoop_cases:
  assumes "writeLoop env file offset st = (r, st')"
  obtains (exit) "\<not> offset < file_size file" "r = Inr offset" "st' = st"
  | (fault) e where "offset < file_size file" "putFault env offset = Some e" "r = Inl e"
      "st' = called (StoreModelChunk offset (take CHUNK_SIZE (drop offset (content file)))) st"
  | (iter) "offset < file_size file" "putFault env offset = None"
      "writeLoop env file (offset + length (take CHUNK_SIZE (drop offset (content file))))
         (writeStep file offset st) = (r, st')"
proof (cases "offset < file_size file")
  case False
  with assms that(1) show ?thesis by (simp add: writeLoop_done)
next
  case True
  show ?thesis
  proof (cases "putFault env offset")
    case None
    with True assms that(3) show ?thesis by (simp add: writeLoop_step)
  next
    case (Some e)
    with True assms that(2) show ?thesis by (simp add: writeLoop_throw)
  qed
qed

lemma drop_window:
  "drop cs (drop offset b) = drop (offset + length (take cs (drop offset b))) b"
  by (auto simp: min_def add.commute)

lemma window_unfold:
  assumes "offset < file_size file"
  defines "chunk \<equiv> take CHUNK_SIZE (drop offset (content file))"
  shows "windows CHUNK_SIZE offset (drop offset (content file)) =
           (offset, chunk) #
             windows CHUNK_SIZE (offset + length chunk) (drop (offset + length chunk) (content file))"
proof -
  have ne: "drop offset (content file) \<noteq> []"
    using assms(1) by (simp add: file_size_def)
  show ?thesis
    unfolding chunk_def
    by (subst windows_Cons [OF ne CHUNK_SIZE_pos]) (simp only: drop_window [symmetric])
qed

lemma writeStep_fields:
  "calls (writeStep file offset st) =
     calls st @ [StoreModelChunk offset (take CHUNK_SIZE (drop offset (content file)))]"
  "chunkStore (writeStep file offset st) =
     idb_put offset (take CHUNK_SIZE (drop offset (content file))) (chunkStore st)"
  "modelStore (writeStep file offset st) = modelStore st"
  "modelStatus (writeStep file offset st) =
     (modelStatus st)\<lparr>importProgress :=
        of_nat (offset + length (take CHUNK_SIZE (drop offset (content file)))) /
          of_nat (file_size file) * 80\<rparr>"
  "published (writeStep file offset st) =
     published st @ [modelStatus (writeStep file offset st)]"
  by (simp_all add: writeStep_def setModelStatus_def Let_def called_def)

lemma writeLoop_success:
  assumes "writeLoop env file offset st = (Inr off, st')" and "offset \<le> file_size file"
  shows "off = file_size file \<and>
         calls st' = calls st @
           map (\<lambda>(k, c). StoreModelChunk k c) (windows CHUNK_SIZE offset (drop offset (content file))) \<and>
         chunkStore st' =
           fold (\<lambda>(k, c). idb_put k c) (windows CHUNK_SIZE offset (drop offset (content file)))
             (chunkStore st) \<and>
         (\<exists>ps. published st' = published st @ ps \<and>
            map importProgress ps =
              writeProgress (file_size file) offset
                (map snd (windows CHUNK_SIZE offset (drop offset (content file)))))"
  using assms
proof (induction "file_size file - offset" arbitrary: offset st rule: less_induct)
  case less
  from less.prems(1) show ?case
  proof (cases rule: writeLoop_cases)
    case exit
    with less.prems(2) show ?thesis by (simp add: file_size_def)
  next
    case (fault e)
    then show ?thesis by simp
  next
    case iter
    define chunk where "chunk = take CHUNK_SIZE (drop offset (content file))"
    define o1 where "o1 = offset + length chunk"
    define st1 where "st1 = writeStep file offset st"
    have len: "0 < length chunk" "o1 \<le> file_size file"
      using chunk_length [OF iter(1)] by (simp_all add: chunk_def o1_def)
    have w: "windows CHUNK_SIZE offset (drop offset (content file)) =
        (offset, chunk) # windows CHUNK_SIZE o1 (drop o1 (content file))"
      using window_unfold [OF iter(1)] by (simp add: chunk_def o1_def)
    have run: "writeLoop env file o1 st1 = (Inr off, st')"
      using iter(3) by (simp add: chunk_def o1_def st1_def)
    have dec: "file_size file - o1 < file_size file - offset"
      using len iter(1) unfolding o1_def by arith
    note IH = less.hyps [OF dec run len(2)]
    then obtain ps where ps: "published st' = published st1 @ ps"
      "map importProgress ps =
         writeProgress (file_size file) o1 (map snd (windows CHUNK_SIZE o1 (drop o1 (content file))))"
      by blast
    have f: "calls st1 = calls st @ [StoreModelChunk offset chunk]"
      "chunkStore st1 = idb_put offset chunk (chunkStore st)"
      "published st1 = published st @ [modelStatus st1]"
      "importProgress (modelStatus st1) = of_nat o1 / of_nat (file_size file) * 80"
      unfolding st1_def chunk_def o1_def by (simp_all add: writeStep_fields)
    have "published st' = published st @ (modelStatus st1 # ps)"
      using ps(1) f(3) by simp
    moreover have "map importProgress (modelStatus st1 # ps) =
       writeProgress (file_size file) offset
         (map snd (windows CHUNK_SIZE offset (drop offset (content file))))"
      using ps(2) f(4) by (simp add: w o1_def)
    ultimately have "\<exists>ps. published st' = published st @ ps \<and>
            map importProgress ps =
              writeProgress (file_size file) offset
                (map snd (windows CHUNK_SIZE offset (drop offset (content file))))"
      by blast
    with IH f(1,2) show ?thesis
      by (simp add: w)
  qed
qed

lemma progress_mono:
  "a \<le> b \<Longrightarrow> of_nat a / of_nat n * 80 \<le> (of_nat b / of_nat n * 80 :: rat)"
  by (simp add: divide_right_mono)

lemma progress_le_80: "a \<le> n \<Longrightarrow> of_nat a / of_nat n * 80 \<le> (80 :: rat)"
proof (cases "n = 0")
  case True
  then show ?thesis by simp
next
  case False
  assume "a \<le> n"
  with False have "(of_nat a :: rat) / of_nat n \<le> 1" by (simp add: divide_le_eq_1)
  from mult_right_mono [OF this, of 80] show ?thesis by simp
qed

lemma progress_nonneg: "0 \<le> (of_nat a / of_nat n * 80 :: rat)"
  by simp

lemma writeLoop_trace:
  assumes "writeLoop env file offset st = (r, st')" and "offset \<le> file_size file"
  shows "\<exists>ps. published st' = published st @ ps \<and>
           sorted (map importProgress ps) \<and>
           list_all (\<lambda>p. of_nat offset / of_nat (file_size file) * 80 \<le> importProgress p \<and>
                          importProgress p \<le> 80) ps"
  using assms
proof (induction "file_size file - offset" arbitrary: offset st rule: less_induct)
  case less
  from less.prems(1) show ?case
  proof (cases rule: writeLoop_cases)
    case exit
    then show ?thesis by simp
  next
    case (fault e)
    then show ?thesis by (simp add: called_def)
  next
    case iter
    define chunk where "chunk = take CHUNK_SIZE (drop offset (content file))"
    define o1 where "o1 = offset + length chunk"
    define st1 where "st1 = writeStep file offset st"
    have len: "0 < length chunk" "o1 \<le> file_size file"
      using chunk_length [OF iter(1)] by (simp_all add: chunk_def o1_def)
    have run: "writeLoop env file o1 st1 = (r, st')"
      using iter(3) by (simp add: chunk_def o1_def st1_def)
    have dec: "file_size file - o1 < file_size file - offset"
      using len iter(1) unfolding o1_def by arith
    from less.hyps [OF dec run len(2)] obtain ps where ps:
      "published st' = published st1 @ ps" "sorted (map importProgress ps)"
      "list_all (\<lambda>p. of_nat o1 / of_nat (file_size file) * 80 \<le> importProgress p \<and>
                      importProgress p \<le> 80) ps"
      by blast
    have f: "published st1 = published st @ [modelStatus st1]"
      "importProgress (modelStatus st1) = of_nat o1 / of_nat (file_size file) * 80"
      unfolding st1_def chunk_def o1_def by (simp_all add: writeStep_fields)
    have lo: "of_nat offset / of_nat (file_size file) * 80 \<le>
        (of_nat o1 / of_nat (file_size file) * 80 :: rat)"
      by (rule progress_mono) (simp add: o1_def)
    have "published st' = published st @ (modelStatus st1 # ps)"
      using ps(1) f(1) by simp
    moreover have "sorted (map importProgress (modelStatus st1 # ps))"
      using ps(2,3) f(2) by (auto simp: list_all_iff)
    moreover have "list_all (\<lambda>p. of_nat offset / of_nat (file_size file) * 80 \<le> importProgress p \<and>
                      importProgress p \<le> 80) (modelStatus st1 # ps)"
      using ps(3) f(2) lo progress_le_80 [OF len(2)] by (auto simp: list_all_iff)
    ultimately show ?thesis by blast
  qed
qed

lemma writeLoop_frame:
  assumes "writeLoop env file offset st = (r, st')"
  shows "modelStore st' = modelStore st \<and>
         modelStatus st' = (modelStatus st)\<lparr>importProgress := importProgress (modelStatus st')\<rparr>"
  using assms
proof (induction "file_size file - offset" arbitrary: offset st rule: less_induct)
  case less
  from less.prems(1) show ?case
  proof (cases rule: writeLoop_cases)
    case exit
    then show ?thesis by simp
  next
    case (fault e)
    then show ?thesis by (simp add: called_def)
  next
    case iter
    define o1 where "o1 = offset + length (take CHUNK_SIZE (drop offset (content file)))"
    have dec: "file_size file - o1 < file_size file - offset"
      using chunk_length [OF iter(1)] iter(1) unfolding o1_def by arith
    have run: "writeLoop env file o1 (writeStep file offset st) = (r, st')"
      using iter(3) by (simp add: o1_def)
    from less.hyps [OF dec run] show ?thesis
      by (simp add: writeStep_fields)
  qed
qed

lemma idb_put_append:
  "list_all (\<lambda>x. fst x < k) tbl \<Longrightarrow> idb_put k v tbl = tbl @ [(k, v)]"
  by (induction tbl) auto

lemma fold_put_append:
  "sorted_wrt (<) (map fst (tbl @ ws)) \<Longrightarrow>
   fold (\<lambda>(k, c). idb_put k c) ws tbl = tbl @ ws"
proof (induction ws arbitrary: tbl)
  case Nil
  then show ?case by simp
next
  case (Cons w ws)
  obtain k c where w: "w = (k, c)" by (cases w)
  from Cons.prems have "list_all (\<lambda>x. fst x < k) tbl"
    by (auto simp: w sorted_wrt_append list_all_iff)
  then have put: "idb_put k c tbl = tbl @ [(k, c)]" by (rule idb_put_append)
  from Cons.prems have "sorted_wrt (<) (map fst ((tbl @ [(k, c)]) @ ws))"
    by (simp add: w)
  from Cons.IH [OF this] show ?case by (simp add: w put)
qed

section \<open>The stages of an import\<close>

lemma called_fields [simp]:
  "modelStatus (called c st) = modelStatus st"
  "modelStore (called c st) = modelStore st"
  "chunkStore (called c st) = chunkStore st"
  "published (called c st) = published st"
  "calls (called c st) = calls st @ [c]"
  by (simp_all add: called_def)

lemma afterClear_fields [simp]:
  "modelStatus (afterClear st) = modelStatus st"
  "modelStore (afterClear st) = modelStore st"
  "chunkStore (afterClear st) = []"
  "published (afterClear st) = published st"
  "calls (afterClear st) = calls st @ [GetStorageQuota, ClearChunks]"
  by (simp_all add: afterClear_def)

lemma setModelStatus_fields [simp]:
  "modelStatus (setModelStatus status st) = fold assign status (modelStatus st)"
  "modelStore (setModelStatus status st) = modelStore st"
  "chunkStore (setModelStatus status st) = chunkStore st"
  "published (setModelStatus status st) = published st @ [fold assign status (modelStatus st)]"
  "calls (setModelStatus status st) = calls st"
  by (simp_all add: setModelStatus_def Let_def)

lemma checkStorageQuota_state: "snd (checkStorageQuota env st) = called GetStorageQuota st"
  by (cases "navigatorStorage env")
     (simp_all add: checkStorageQuota_def getStorageQuota_def Let_def)

lemma clearChunks_cases:
  "clearChunks env st =
     (case clearFault env of
        Some e \<Rightarrow> (Inl e, called ClearChunks st)
      | None \<Rightarrow> (Inr (), (called ClearChunks st)\<lparr>chunkStore := []\<rparr>))"
  by (simp add: clearChunks_def Let_def)

lemma calculateSHA256FromChunks_state:
  "snd (calculateSHA256FromChunks env st) = called CalculateSHA256FromChunks st"
  by (simp add: calculateSHA256FromChunks_def Let_def split: option.splits)

lemma importModel_try_success:
  assumes "importModel_try env file st = (Inr u, st')"
  obtains off st4 sha where
    "endsWith (name file) EXPECTED_EXTENSION"
    "MIN_SIZE \<le> file_size file" "file_size file \<le> MAX_SIZE"
    "hasQuota (fst (checkStorageQuota env st))"
    "clearFault env = None"
    "writeLoop env file 0 (afterClear st) = (Inr off, st4)"
    "calculateSHA256FromChunks env st4 = (Inr sha, called CalculateSHA256FromChunks st4)"
    "st' = importModel_classify file sha
             (setModelStatus [K_importProgress 90] (called CalculateSHA256FromChunks st4))"
    "sha = hexEncode (digestSHA256 env (concat (idb_getAll (chunkStore st4))))"
proof -
  obtain q st2 where q: "checkStorageQuota env st = (q, st2)" by (cases "checkStorageQuota env st")
  then have st2: "st2 = called GetStorageQuota st"
    using checkStorageQuota_state [of env st] by simp
  from assms q have v: "endsWith (name file) EXPECTED_EXTENSION" "MIN_SIZE \<le> file_size file"
    "file_size file \<le> MAX_SIZE" "hasQuota q"
    by (auto simp: importModel_try_def Let_def split: if_splits)
  with assms q have c: "clearFault env = None"
    by (auto simp: importModel_try_def clearChunks_cases split: option.splits)
  obtain r st4 where w: "writeLoop env file 0 (afterClear st) = (r, st4)"
    by (cases "writeLoop env file 0 (afterClear st)")
  with assms q v c st2 obtain off where off: "r = Inr off"
    by (cases r) (auto simp: importModel_try_def clearChunks_cases afterClear_def)
  obtain r5 st5 where h: "calculateSHA256FromChunks env st4 = (r5, st5)"
    by (cases "calculateSHA256FromChunks env st4")
  then have st5: "st5 = called CalculateSHA256FromChunks st4"
    using calculateSHA256FromChunks_state [of env st4] by simp
  from assms q v c st2 w off h obtain sha where sha: "r5 = Inr sha"
    by (cases r5) (auto simp: importModel_try_def clearChunks_cases afterClear_def)
  from assms q v c st2 w off h sha
  have "st' = importModel_classify file sha (setModelStatus [K_importProgress 90] st5)"
    by (auto simp: importModel_try_def clearChunks_cases afterClear_def)
  moreover from h sha
  have "sha = hexEncode (digestSHA256 env (concat (idb_getAll (chunkStore st4))))"
    by (auto simp: calculateSHA256FromChunks_def Let_def split: option.splits)
  ultimately show ?thesis using that v c w off h sha st5 q by simp
qed

lemma importModel_try_failure:
  assumes "importModel_try env file st = (Inl e, st')"
  obtains (invalid) "st' = st"
      "\<not> endsWith (name file) EXPECTED_EXTENSION \<or> file_size file < MIN_SIZE \<or>
       MAX_SIZE < file_size file"
  | (noQuota) "st' = called GetStorageQuota st" "\<not> hasQuota (fst (checkStorageQuota env st))"
  | (clearFailed) "st' = called ClearChunks (called GetStorageQuota st)" "clearFault env = Some e"
  | (writeFailed) "writeLoop env file 0 (afterClear st) = (Inl e, st')"
  | (hashFailed) off st4 where "writeLoop env file 0 (afterClear st) = (Inr off, st4)"
      "st' = called CalculateSHA256FromChunks st4"
      "getAllFault env = Some e \<or> digestFault env = Some e"
proof -
  obtain q st2 where q: "checkStorageQuota env st = (q, st2)" by (cases "checkStorageQuota env st")
  then have st2: "st2 = called GetStorageQuota st"
    using checkStorageQuota_state [of env st] by simp
  obtain r st4 where w: "writeLoop env file 0 (afterClear st) = (r, st4)"
    by (cases "writeLoop env file 0 (afterClear st)")
  obtain r5 st5 where h: "calculateSHA256FromChunks env st4 = (r5, st5)"
    by (cases "calculateSHA256FromChunks env st4")
  then have st5: "st5 = called CalculateSHA256FromChunks st4"
    using calculateSHA256FromChunks_state [of env st4] by simp
  have hf: "r5 = Inl e \<Longrightarrow> getAllFault env = Some e \<or> digestFault env = Some e"
    using h by (auto simp: calculateSHA256FromChunks_def Let_def split: option.splits)
  from assms q st2 w h st5 hf that show ?thesis
    by (auto simp: importModel_try_def clearChunks_cases afterClear_def Let_def
             split: if_splits option.splits sum.splits)
qed

lemma importModel_success_iff:
  "importModel env file st = (Inr u, st') \<longleftrightarrow>
   importModel_try env file
     (setModelStatus [K_importProgress 0, K_error None, K_verificationStatus (Some Unverified)] st)
     = (Inr u, st')"
  by (auto simp: importModel_def Let_def split: prod.splits sum.splits)

lemma importModel_failure:
  assumes "importModel env file st = (Inl e, st')"
  obtains st1 where
    "importModel_try env file
       (setModelStatus [K_importProgress 0, K_error None, K_verificationStatus (Some Unverified)] st)
       = (Inl e, st1)"
    "st' = setModelStatus
             [K_error (Some (case e of Error message \<Rightarrow> message | NonError \<Rightarrow> IMPORT_ERROR)),
              K_importProgress 0, K_verificationStatus (Some Failed)] st1"
  using assms by (auto simp: importModel_def Let_def split: prod.splits sum.splits)

lemma importModel_classify_fields [simp]:
  "modelStore (importModel_classify file sha st) = modelStore st"
  "chunkStore (importModel_classify file sha st) = chunkStore st"
  "calls (importModel_classify file sha st) = calls st"
  "published (importModel_classify file sha st) =
     published st @ [modelStatus (importModel_classify file sha st)]"
  "modelStatus (importModel_classify file sha st) =
     (modelStatus st)\<lparr>isImported := True, isLoaded := True, fileName := Some (name file),
        fileSize := Some (file_size file), sha256 := Some sha, importProgress := 100,
        error := None,
        verificationStatus := Some (if KNOWN_MODEL_HASHES sha = None then Unverified else Verified)\<rparr>"
  by (simp_all add: importModel_classify_def Let_def)

lemma importModel_try_modelStore:
  assumes "importModel_try env file st = (r, st')"
  shows "modelStore st' = modelStore st"
proof (cases r)
  case (Inl e)
  with assms have "importModel_try env file st = (Inl e, st')" by simp
  then show ?thesis
  proof (cases rule: importModel_try_failure)
    case writeFailed
    from writeLoop_frame [OF this] show ?thesis by simp
  next
    case (hashFailed off st4)
    from writeLoop_frame [OF hashFailed(1)] hashFailed(2) show ?thesis by simp
  qed simp_all
next
  case (Inr u)
  with assms have "importModel_try env file st = (Inr u, st')" by simp
  then show ?thesis
  proof (cases rule: importModel_try_success)
    case (1 off st4 sha)
    from writeLoop_frame [OF 1(6)] 1(8) show ?thesis by simp
  qed
qed

lemma importModel_modelStore: "modelStore (snd (importModel env file st)) = modelStore st"
proof -
  obtain r st1 where t: "importModel_try env file
     (setModelStatus [K_importProgress 0, K_error None, K_verificationStatus (Some Unverified)] st)
     = (r, st1)"
    by (cases "importModel_try env file
     (setModelStatus [K_importProgress 0, K_error None, K_verificationStatus (Some Unverified)] st)")
  from importModel_try_modelStore [OF t] have "modelStore st1 = modelStore st" by simp
  with t show ?thesis by (cases r) (simp_all add: importModel_def Let_def)
qed

lemma verifyModel_state:
  "snd (verifyModel env st) = st \<or> snd (verifyModel env st) = called GetModel st"
  by (auto simp: verifyModel_def getModel_def Let_def split: option.splits)

lemma verifyModel_modelStore: "modelStore (snd (verifyModel env st)) = modelStore st"
  using verifyModel_state [of env st] by auto

lemma resetModel_state:
  "snd (resetModel env st) =
     (called DeleteModel st)
       \<lparr>modelStatus := initialStatus,
        modelStore := (case deleteFault env of None \<Rightarrow> (modelStore st)(''model'' := None)
                       | Some e \<Rightarrow> modelStore st),
        published := published st @ [initialStatus]\<rparr>"
  by (simp add: resetModel_def deleteModel_def Let_def initialStatus_def called_def
           split: option.splits)

lemma resetModel_never_errors: "fst (resetModel env st) = Inr ()"
  by (simp add: resetModel_def Let_def)

lemma resetModel_chunkStore: "chunkStore (snd (resetModel env st)) = chunkStore st"
  by (simp add: resetModel_state)

lemma resetModel_idempotent:
  "modelStatus (snd (resetModel env (snd (resetModel env st)))) = modelStatus (snd (resetModel env st)) \<and>
   modelStore (snd (resetModel env (snd (resetModel env st)))) = modelStore (snd (resetModel env st)) \<and>
   chunkStore (snd (resetModel env (snd (resetModel env st)))) = chunkStore (snd (resetModel env st))"
  by (simp add: resetModel_state split: option.splits)

lemma reachable_modelStore: "reachable st \<Longrightarrow> modelStore st = Map.empty"
proof (induction rule: reachable.induct)
  case fresh
  show ?case by (simp add: freshState_def)
next
  case (afterImport st env f)
  then show ?case by (simp add: importModel_modelStore)
next
  case (afterVerify st env)
  then show ?case by (simp add: verifyModel_modelStore)
next
  case (afterReset st env)
  then show ?case by (simp add: resetModel_state split: option.splits)
next
  case (afterQuota st env)
  then show ?case by (simp add: checkStorageQuota_state)
next
  case (afterSet st status)
  then show ?case by simp
qed

lemma writeLoop_fault:
  assumes "writeLoop env file offset st = (Inl e, st')"
  shows "\<exists>k<file_size file. putFault env k = Some e"
  using assms
proof (induction "file_size file - offset" arbitrary: offset st rule: less_induct)
  case less
  from less.prems(1) show ?case
  proof (cases rule: writeLoop_cases)
    case exit
    then show ?thesis by simp
  next
    case (fault e')
    then show ?thesis by auto
  next
    case iter
    define o1 where "o1 = offset + length (take CHUNK_SIZE (drop offset (content file)))"
    have dec: "file_size file - o1 < file_size file - offset"
      using chunk_length [OF iter(1)] iter(1) unfolding o1_def by arith
    have run: "writeLoop env file o1 (writeStep file offset st) = (Inl e, st')"
      using iter(3) by (simp add: o1_def)
    from less.hyps [OF dec run] show ?thesis .
  qed
qed

lemma importModel_succeeds:
  assumes "endsWith (name file) EXPECTED_EXTENSION"
    and "MIN_SIZE \<le> file_size file" and "file_size file \<le> MAX_SIZE"
    and "hasQuota (fst (checkStorageQuota env st))"
    and "clearFault env = None" and "\<And>k. putFault env k = None"
    and "getAllFault env = None" and "digestFault env = None"
  shows "fst (importModel env file st) = Inr ()"
proof -
  let ?st0 = "setModelStatus
     [K_importProgress 0, K_error None, K_verificationStatus (Some Unverified)] st"
  obtain r st1 where t: "importModel_try env file ?st0 = (r, st1)"
    by (cases "importModel_try env file ?st0")
  have q: "hasQuota (fst (checkStorageQuota env ?st0))"
    using assms(4) by (simp add: checkStorageQuota_def getStorageQuota_def Let_def
        split: StorageManager.splits)
  show ?thesis
  proof (cases r)
    case (Inr u)
    with t show ?thesis by (simp add: importModel_def)
  next
    case (Inl e)
    with t have "importModel_try env file ?st0 = (Inl e, st1)" by simp
    then have False
    proof (cases rule: importModel_try_failure)
      case invalid
      with assms(1-3) show False by auto
    next
      case noQuota
      with q show False by simp
    next
      case clearFailed
      with assms(5) show False by simp
    next
      case writeFailed
      from writeLoop_fault [OF this] assms(6) show False by simp
    next
      case (hashFailed off st4)
      with assms(7,8) show False by simp
    qed
    then show ?thesis ..
  qed
qed

lemma zerosFile_valid:
  "endsWith (name zerosFile) EXPECTED_EXTENSION"
  "MIN_SIZE \<le> file_size zerosFile" "file_size zerosFile \<le> MAX_SIZE"
  by (simp_all add: zerosFile_def endsWith_def EXPECTED_EXTENSION_def MIN_SIZE_def MAX_SIZE_def
        file_size_def)

lemma quietEnv_fields [simp]:
  "navigatorStorage (quietEnv h) = Estimate (Some 0) (Some (50 * 1024 * 1024 * 1024))"
  "clearFault (quietEnv h) = None" "putFault (quietEnv h) k = None"
  "getAllFault (quietEnv h) = None" "digestFault (quietEnv h) = None"
  "getFault (quietEnv h) = None" "deleteFault (quietEnv h) = None"
  "digestSHA256 (quietEnv h) = h"
  by (simp_all add: quietEnv_def)

lemma quietEnv_hasQuota: "hasQuota (fst (checkStorageQuota (quietEnv h) st))"
  by (simp add: checkStorageQuota_def getStorageQuota_def Let_def nullish_def)

lemma zeros_import_ok: "importModel (quietEnv h) zerosFile st = (Inr (), snd (importModel (quietEnv h) zerosFile st))"
proof -
  have "fst (importModel (quietEnv h) zerosFile st) = Inr ()"
    by (rule importModel_succeeds) (simp_all add: zerosFile_valid quietEnv_hasQuota)
  then show ?thesis by (simp add: prod_eq_iff)
qed


lemma concat_windows: "0 < cs \<Longrightarrow> concat (map snd (windows cs offset b)) = b"
proof (induction cs offset b rule: windows.induct)
  case (1 cs offset b)
  show ?case
  proof (cases "b = []")
    case True
    then show ?thesis by simp
  next
    case False
    with 1 show ?thesis by (simp add: windows_Cons)
  qed
qed

lemma windows_keys_ge: "(k, c) \<in> set (windows cs offset b) \<Longrightarrow> offset \<le> k"
proof (induction cs offset b rule: windows.induct)
  case (1 cs offset b)
  show ?case
  proof (cases "b = [] \<or> cs = 0")
    case True
    with 1(2) show ?thesis by (auto simp: windows.simps)
  next
    case False
    then have w: "windows cs offset b =
        (offset, take cs b) # windows cs (offset + length (take cs b)) (drop cs b)"
      by (simp add: windows_Cons)
    from 1(2) have "(k, c) = (offset, take cs b) \<or>
        (k, c) \<in> set (windows cs (offset + length (take cs b)) (drop cs b))"
      by (simp add: w)
    then show ?thesis
    proof
      assume "(k, c) = (offset, take cs b)"
      then show ?thesis by simp
    next
      assume "(k, c) \<in> set (windows cs (offset + length (take cs b)) (drop cs b))"
      from 1(1) [OF False this] show ?thesis by simp
    qed
  qed
qed

lemma windows_keys_gt:
  "b \<noteq> [] \<Longrightarrow> 0 < cs \<Longrightarrow>
   (k, c) \<in> set (windows cs (offset + length (take cs b)) (drop cs b)) \<Longrightarrow> offset < k"
  using windows_keys_ge [of k c cs "offset + length (take cs b)" "drop cs b"]
  by (cases b) auto

lemma windows_sorted: "sorted_wrt (<) (map fst (windows cs offset b))"
proof (induction cs offset b rule: windows.induct)
  case (1 cs offset b)
  show ?case
  proof (cases "b = [] \<or> cs = 0")
    case True
    then show ?thesis by (auto simp: windows.simps)
  next
    case False
    with 1 show ?thesis by (auto simp: windows_Cons dest: windows_keys_gt)
  qed
qed

lemma windows_advances: "0 < cs \<Longrightarrow> advances cs offset (windows cs offset b) (offset + length b)"
proof (induction cs offset b rule: windows.induct)
  case (1 cs offset b)
  show ?case
  proof (cases "b = []")
    case True
    then show ?thesis by simp
  next
    case False
    have "windows cs (offset + length (take cs b)) (drop cs b) = [] \<or> length (take cs b) = cs"
      by (cases "cs \<le> length b") auto
    moreover have "0 < length (take cs b)" using False 1(2) by (cases b) auto
    ultimately show ?thesis using 1 False by (auto simp: windows_Cons)
  qed
qed

lemma sessionProgress_append:
  "published st' = published st @ ps \<Longrightarrow> sessionProgress st st' = map importProgress ps"
  by (simp add: sessionProgress_def)

lemma writeLoop_returns:
  assumes "\<And>k. putFault env k = None" and "offset \<le> file_size file"
  shows "fst (writeLoop env file offset st) = Inr (file_size file)"
proof -
  obtain r st' where w: "writeLoop env file offset st = (r, st')"
    by (cases "writeLoop env file offset st")
  show ?thesis
  proof (cases r)
    case (Inl e)
    with w writeLoop_fault [of env "file" offset st e st'] assms(1) show ?thesis by simp
  next
    case (Inr off)
    with w writeLoop_success [of env "file" offset st off st'] assms(2) show ?thesis by simp
  qed
qed

lemma writeLoop_chunkStore:
  assumes "writeLoop env file 0 st = (Inr off, st')" and "chunkStore st = []"
  shows "chunkStore st' = windows CHUNK_SIZE 0 (content file)"
proof -
  from writeLoop_success [OF assms(1)] assms(2)
  have "chunkStore st' = fold (\<lambda>(k, c). idb_put k c) (windows CHUNK_SIZE 0 (content file)) []"
    by simp
  also have "\<dots> = [] @ windows CHUNK_SIZE 0 (content file)"
    by (rule fold_put_append) (simp add: windows_sorted)
  finally show ?thesis by simp
qed

lemma zeros_windows:
  "map (\<lambda>(k, c). (k, length c)) (windows CHUNK_SIZE 0 (content zerosFile)) =
     [(0, 16777216), (16777216, 16777216), (33554432, 16777216), (50331648, 16777216),
      (67108864, 16777216), (83886080, 16777216), (100663296, 4194304)]"
  by (simp add: zerosFile_def CHUNK_SIZE_def windows.simps)

lemma importModel_success_state:
  assumes "importModel env file st = (Inr u, st')"
  shows "chunkStore st' = windows CHUNK_SIZE 0 (content file)"
    and "calls st' = calls st @ [GetStorageQuota, ClearChunks] @
           map (\<lambda>(k, c). StoreModelChunk k c) (windows CHUNK_SIZE 0 (content file)) @
           [CalculateSHA256FromChunks]"
    and "sessionProgress st st' =
           0 # writeProgress (file_size file) 0 (map snd (windows CHUNK_SIZE 0 (content file))) @
             [90, 100]"
    and "modelStatus st' =
           (modelStatus st)\<lparr>isImported := True, isLoaded := True, fileName := Some (name file),
              fileSize := Some (file_size file),
              sha256 := Some (hexEncode (digestSHA256 env (content file))),
              importProgress := 100, error := None,
              verificationStatus :=
                Some (if KNOWN_MODEL_HASHES (hexEncode (digestSHA256 env (content file))) = None
                      then Unverified else Verified)\<rparr>"
    and "endsWith (name file) EXPECTED_EXTENSION \<and> MIN_SIZE \<le> file_size file \<and>
         file_size file \<le> MAX_SIZE"
proof -
  let ?st0 = "setModelStatus
     [K_importProgress 0, K_error None, K_verificationStatus (Some Unverified)] st"
  let ?ws = "windows CHUNK_SIZE 0 (content file)"
  from assms have "importModel_try env file ?st0 = (Inr u, st')"
    by (simp add: importModel_success_iff)
  then obtain off st4 sha where
    v: "endsWith (name file) EXPECTED_EXTENSION" "MIN_SIZE \<le> file_size file"
       "file_size file \<le> MAX_SIZE"
    and loop: "writeLoop env file 0 (afterClear ?st0) = (Inr off, st4)"
    and st': "st' = importModel_classify file sha
             (setModelStatus [K_importProgress 90] (called CalculateSHA256FromChunks st4))"
    and sha: "sha = hexEncode (digestSHA256 env (concat (idb_getAll (chunkStore st4))))"
    by (cases rule: importModel_try_success) blast
  have cs: "chunkStore st4 = ?ws"
    using loop by (rule writeLoop_chunkStore) simp
  have bytes: "concat (idb_getAll (chunkStore st4)) = content file"
    using concat_windows [OF CHUNK_SIZE_pos, of 0 "content file"] by (simp add: cs idb_getAll_def)
  from writeLoop_success [OF loop] obtain ps where
    calls4: "calls st4 = calls (afterClear ?st0) @ map (\<lambda>(k, c). StoreModelChunk k c) ?ws"
    and ps: "published st4 = published (afterClear ?st0) @ ps"
      "map importProgress ps = writeProgress (file_size file) 0 (map snd ?ws)"
    by auto
  define x where "x = importProgress (modelStatus st4)"
  from writeLoop_frame [OF loop]
  have "modelStatus st4 = (modelStatus (afterClear ?st0))\<lparr>importProgress := x\<rparr>"
    unfolding x_def by (rule conjunct2)
  then have ms: "modelStatus st4 =
      (modelStatus st)\<lparr>importProgress := x, error := None,
         verificationStatus := Some Unverified\<rparr>"
    by simp
  show "chunkStore st' = ?ws" by (simp add: st' cs)
  show "calls st' = calls st @ [GetStorageQuota, ClearChunks] @
           map (\<lambda>(k, c). StoreModelChunk k c) ?ws @ [CalculateSHA256FromChunks]"
    by (simp add: st' calls4)
  show "sessionProgress st st' =
           0 # writeProgress (file_size file) 0 (map snd ?ws) @ [90, 100]"
    by (simp add: sessionProgress_def st' ps)
  show "modelStatus st' =
           (modelStatus st)\<lparr>isImported := True, isLoaded := True, fileName := Some (name file),
              fileSize := Some (file_size file),
              sha256 := Some (hexEncode (digestSHA256 env (content file))),
              importProgress := 100, error := None,
              verificationStatus :=
                Some (if KNOWN_MODEL_HASHES (hexEncode (digestSHA256 env (content file))) = None
                      then Unverified else Verified)\<rparr>"
    by (simp add: st' sha bytes ms)
  show "endsWith (name file) EXPECTED_EXTENSION \<and> MIN_SIZE \<le> file_size file \<and>
         file_size file \<le> MAX_SIZE"
    using v by simp
qed

lemma writeLoop_first_progress:
  assumes "offset < file_size file" and "putFault env offset = None"
  shows "take 1 (sessionProgress st (snd (writeLoop env file offset st))) =
           [of_nat (offset + length (take CHUNK_SIZE (drop offset (content file)))) /
              of_nat (file_size file) * 80]"
proof -
  let ?o1 = "offset + length (take CHUNK_SIZE (drop offset (content file)))"
  obtain r st' where w: "writeLoop env file ?o1 (writeStep file offset st) = (r, st')"
    by (cases "writeLoop env file ?o1 (writeStep file offset st)")
  have le: "?o1 \<le> file_size file" using chunk_length [OF assms(1)] by simp
  from writeLoop_trace [OF w le] obtain ps where
    "published st' = published (writeStep file offset st) @ ps" by blast
  then have "published st' = published st @ modelStatus (writeStep file offset st) # ps"
    by (simp add: writeStep_fields)
  moreover have "snd (writeLoop env file offset st) = st'"
    using writeLoop_step [OF assms, of st] w by simp
  ultimately show ?thesis
    by (simp add: sessionProgress_def writeStep_fields)
qed

lemma writeLoop_progress_prefix:
  assumes "writeLoop env file offset st = (r, st')" and "offset \<le> file_size file"
  shows "\<exists>m. sessionProgress st st' =
           take m (writeProgress (file_size file) offset
                     (map snd (windows CHUNK_SIZE offset (drop offset (content file)))))"
  using assms
proof (induction "file_size file - offset" arbitrary: offset st rule: less_induct)
  case less
  from less.prems(1) show ?case
  proof (cases rule: writeLoop_cases)
    case exit
    then have "sessionProgress st st' = take 0 (writeProgress (file_size file) offset
                     (map snd (windows CHUNK_SIZE offset (drop offset (content file)))))"
      by (simp add: sessionProgress_def)
    then show ?thesis ..
  next
    case (fault e)
    then have "sessionProgress st st' = take 0 (writeProgress (file_size file) offset
                     (map snd (windows CHUNK_SIZE offset (drop offset (content file)))))"
      by (simp add: sessionProgress_def)
    then show ?thesis ..
  next
    case iter
    define chunk where "chunk = take CHUNK_SIZE (drop offset (content file))"
    define o1 where "o1 = offset + length chunk"
    define st1 where "st1 = writeStep file offset st"
    have len: "0 < length chunk" "o1 \<le> file_size file"
      using chunk_length [OF iter(1)] by (simp_all add: chunk_def o1_def)
    have w: "windows CHUNK_SIZE offset (drop offset (content file)) =
        (offset, chunk) # windows CHUNK_SIZE o1 (drop o1 (content file))"
      using window_unfold [OF iter(1)] by (simp add: chunk_def o1_def)
    have run: "writeLoop env file o1 st1 = (r, st')"
      using iter(3) by (simp add: chunk_def o1_def st1_def)
    have dec: "file_size file - o1 < file_size file - offset"
      using len iter(1) unfolding o1_def by arith
    from less.hyps [OF dec run len(2)] obtain m where m:
      "sessionProgress st1 st' = take m (writeProgress (file_size file) o1
          (map snd (windows CHUNK_SIZE o1 (drop o1 (content file)))))"
      by blast
    from writeLoop_trace [OF run len(2)] obtain ps where ps: "published st' = published st1 @ ps"
      by blast
    have f: "published st1 = published st @ [modelStatus st1]"
      "importProgress (modelStatus st1) = of_nat o1 / of_nat (file_size file) * 80"
      unfolding st1_def chunk_def o1_def by (simp_all add: writeStep_fields)
    have "sessionProgress st st' = importProgress (modelStatus st1) # sessionProgress st1 st'"
      using ps f(1) by (simp add: sessionProgress_def)
    also have "\<dots> = take (Suc m) (writeProgress (file_size file) offset
                     (map snd (windows CHUNK_SIZE offset (drop offset (content file)))))"
      by (simp add: m f(2) w o1_def)
    finally show ?thesis ..
  qed
qed

lemma zeros_progress:
  "writeProgress (file_size zerosFile) 0 (map snd (windows CHUNK_SIZE 0 (content zerosFile))) =
     [64 / 5, 128 / 5, 192 / 5, 256 / 5, 64, 384 / 5, 80]"
  by (simp add: zerosFile_def CHUNK_SIZE_def windows.simps file_size_def)

lemma importModel_try_published:
  assumes "importModel_try env file st = (r, st')"
  shows "\<exists>ps. published st' = published st @ ps \<and> sorted (map importProgress ps) \<and>
           list_all (\<lambda>p. 0 \<le> importProgress p) ps \<and>
           (case r of Inr u \<Rightarrow> ps \<noteq> [] \<and> importProgress (last ps) = 100 | Inl e \<Rightarrow> True)"
proof (cases r)
  case (Inl e)
  with assms have t: "importModel_try env file st = (Inl e, st')" by simp
  have "\<exists>ps. published st' = published st @ ps \<and> sorted (map importProgress ps) \<and>
           list_all (\<lambda>p. 0 \<le> importProgress p) ps"
    using t
  proof (cases rule: importModel_try_failure)
    case writeFailed
    from writeLoop_trace [OF this] show ?thesis
      by (auto simp: list_all_iff)
  next
    case (hashFailed off st4)
    from writeLoop_trace [OF hashFailed(1)] hashFailed(2) show ?thesis
      by (auto simp: list_all_iff)
  qed simp_all
  with Inl show ?thesis by simp
next
  case (Inr u)
  with assms have "importModel_try env file st = (Inr u, st')" by simp
  then show ?thesis
  proof (cases rule: importModel_try_success)
    case (1 off st4 sha)
    from writeLoop_trace [OF 1(6)] obtain ps where ps:
      "published st4 = published st @ ps" "sorted (map importProgress ps)"
      "list_all (\<lambda>p. 0 \<le> importProgress p \<and> importProgress p \<le> 80) ps"
      by auto
    let ?s90 = "(modelStatus st4)\<lparr>importProgress := 90\<rparr>"
    let ?s100 = "modelStatus st'"
    have p: "published st' = published st @ (ps @ [?s90, ?s100])"
      using 1(8) ps(1) by simp
    have i: "importProgress ?s100 = 100" using 1(8) by simp
    have "sorted (map importProgress (ps @ [?s90, ?s100]))"
      using ps(2,3) i by (auto simp: sorted_append list_all_iff)
    moreover have "list_all (\<lambda>p. 0 \<le> importProgress p) (ps @ [?s90, ?s100])"
      using ps(3) i by (auto simp: list_all_iff)
    moreover have "importProgress (last (ps @ [?s90, ?s100])) = 100" using i by simp
    ultimately show ?thesis using p Inr by (intro exI [of _ "ps @ [?s90, ?s100]"]) simp
  qed
qed

lemmas run_defs =
  importModel_def importModel_try_def importModel_classify_def quietEnv_def zerosFile_def
  endsWith_def EXPECTED_EXTENSION_def MIN_SIZE_def MAX_SIZE_def file_size_def
  checkStorageQuota_def getStorageQuota_def called_def nullish_def clearChunks_def
  storeModelChunk_def slice_def CHUNK_SIZE_def setModelStatus_def calculateSHA256FromChunks_def
  idb_getAll_def Let_def writeLoop.simps sessionProgress_def

lemma importModel_try_failure_frame:
  assumes "importModel_try env file st = (Inl e, st')"
  shows "modelStatus st' = (modelStatus st)\<lparr>importProgress := importProgress (modelStatus st')\<rparr>"
  using assms
proof (cases rule: importModel_try_failure)
  case writeFailed
  from writeLoop_frame [OF this] show ?thesis by simp
next
  case (hashFailed off st4)
  from writeLoop_frame [OF hashFailed(1)] hashFailed(2) show ?thesis by simp
qed simp_all

lemma zeros_status:
  "modelStatus (importedState zeroDigest) =
     \<lparr>isImported = True, isLoaded = True, fileName = Some ''model.gguf'',
      fileSize = Some 104857600, sha256 = Some (concat (replicate 32 ''00'')),
      importProgress = 100, error = None, isVerified = None,
      verificationStatus = Some Unverified\<rparr>"
proof -
  have h: "hexEncode (zeroDigest b) = concat (replicate 32 ''00'')" for b
    by (simp add: hexEncode_def zeroDigest_def padStart_def digitChar_def)
  have k: "KNOWN_MODEL_HASHES (concat (replicate 32 ''00'')) = None"
    unfolding KNOWN_MODEL_HASHES_def by code_simp
  from importModel_success_state(4) [OF zeros_import_ok [of zeroDigest freshState]]
  show ?thesis
    by (simp add: importedState_def h k freshState_def initialStatus_def zerosFile_def file_size_def)
qed

lemma hashFail_import:
  "fst (importModel hashFailEnv zerosFile st) = Inl (Error ''digest failed'')"
  by (simp add: run_defs hashFailEnv_def)



lemma map_of_idb_put: "map_of (idb_put k v tbl) = (map_of tbl)(k \<mapsto> v)"
  by (induction tbl) (auto simp: fun_eq_iff)

lemma map_of_fold_put:
  "distinct (map fst ws) \<Longrightarrow>
   map_of (fold (\<lambda>(k, c). idb_put k c) ws tbl) = map_of tbl ++ map_of ws"
proof (induction ws arbitrary: tbl)
  case Nil
  then show ?case by simp
next
  case (Cons w ws)
  obtain k c where w: "w = (k, c)" by (cases w)
  from Cons.prems have fresh: "map_of ws k = None" and d: "distinct (map fst ws)"
    by (auto simp: w map_of_eq_None_iff)
  have "map_of (fold (\<lambda>(k, c). idb_put k c) ws (idb_put k c tbl)) =
      (map_of tbl)(k \<mapsto> c) ++ map_of ws"
    using Cons.IH [OF d, of "idb_put k c tbl"] by (simp only: map_of_idb_put)
  also have "\<dots> = map_of tbl ++ (map_of ws)(k \<mapsto> c)"
    using fresh by (auto simp: fun_eq_iff map_add_def split: option.splits)
  finally have chain: "map_of (fold (\<lambda>(k, c). idb_put k c) ws (idb_put k c tbl)) =
      map_of tbl ++ (map_of ws)(k \<mapsto> c)" .
  have l: "fold (\<lambda>(k, c). idb_put k c) (w # ws) tbl =
      fold (\<lambda>(k, c). idb_put k c) ws (idb_put k c tbl)"
    by (simp add: w)
  have r: "map_of (w # ws) = (map_of ws)(k \<mapsto> c)"
    by (simp add: w)
  show ?case unfolding l r by (rule chain)
qed

lemma windows_distinct: "distinct (map fst (windows cs offset b))"
  using windows_sorted [of cs offset b] by (simp add: strict_sorted_iff)


section \<open>Validation\<close>

text \<open>
  C6.  A file whose name does not end in \<^verbatim>\<open>.gguf\<close>, or whose size is below 100 MiB or
  above 15 GiB, makes \<^verbatim>\<open>importModel\<close> throw one of the three invalid-input errors,
  and the session issues no storage call at all (no \<^verbatim>\<open>clearChunks\<close>, no
  \<^verbatim>\<open>storeModelChunk\<close>): both object stores are as they were.
\<close>

theorem C6_invalid_input_leaves_storage:
  assumes "\<not> endsWith (name file) EXPECTED_EXTENSION \<or> file_size file < MIN_SIZE \<or>
           MAX_SIZE < file_size file"
  shows "fst (importModel env file st) \<in>
           {Inl (Error INVALID_FILE_TYPE),
            Inl (Error ''File too small. Please select a valid model file.''),
            Inl (Error FILE_TOO_LARGE)} \<and>
         calls (snd (importModel env file st)) = calls st \<and>
         chunkStore (snd (importModel env file st)) = chunkStore st \<and>
         modelStore (snd (importModel env file st)) = modelStore st"
  using assms by (auto simp: importModel_def importModel_try_def Let_def)

theorem C6_witness:
  "\<forall>env st. \<not> endsWith ''model.txt'' EXPECTED_EXTENSION \<and>
     fst (importModel env \<lparr>name = ''model.txt'', content = []\<rparr> st) = Inl (Error INVALID_FILE_TYPE) \<and>
     calls (snd (importModel env \<lparr>name = ''model.txt'', content = []\<rparr> st)) = calls st \<and>
     chunkStore (snd (importModel env \<lparr>name = ''model.txt'', content = []\<rparr> st)) = chunkStore st"
proof (intro allI)
  fix env st
  have h: "\<not> endsWith ''model.txt'' EXPECTED_EXTENSION"
    by (simp add: endsWith_def EXPECTED_EXTENSION_def)
  have r: "fst (importModel env \<lparr>name = ''model.txt'', content = []\<rparr> st) = Inl (Error INVALID_FILE_TYPE)"
    by (simp add: importModel_def importModel_try_def endsWith_def EXPECTED_EXTENSION_def)
  from C6_invalid_input_leaves_storage [of "\<lparr>name = ''model.txt'', content = []\<rparr>" env st] h r
  show "\<not> endsWith ''model.txt'' EXPECTED_EXTENSION \<and>
     fst (importModel env \<lparr>name = ''model.txt'', content = []\<rparr> st) = Inl (Error INVALID_FILE_TYPE) \<and>
     calls (snd (importModel env \<lparr>name = ''model.txt'', content = []\<rparr> st)) = calls st \<and>
     chunkStore (snd (importModel env \<lparr>name = ''model.txt'', content = []\<rparr> st)) = chunkStore st"
    by simp
qed

section \<open>The quota check\<close>

text \<open>
  C8.  When \<^verbatim>\<open>navigator.storage\<close> is missing or \<^verbatim>\<open>estimate()\<close> rejects,
  \<^verbatim>\<open>checkStorageQuota\<close> answers usage 0, quota 0 and \<^verbatim>\<open>hasQuota = false\<close>.  When
  the platform answers an estimate, the usage and the quota it answers are those of
  the estimate (0 for a number the estimate leaves undefined), and \<^verbatim>\<open>hasQuota\<close> holds
  exactly when that quota exceeds that usage by more than 2 GiB.  So, whatever the
  platform does, \<^verbatim>\<open>hasQuota\<close> holds exactly when the reported quota exceeds the
  reported usage by more than 2 GiB.
\<close>

theorem C8_quota_fails_closed:
  "(navigatorStorage env = NoStorageManager \<or> (\<exists>e. navigatorStorage env = EstimateRejects e) \<longrightarrow>
      fst (checkStorageQuota env st) = \<lparr>hasQuota = False, usage = 0, quota = 0\<rparr>) \<and>
   (\<forall>u q. navigatorStorage env = Estimate u q \<longrightarrow>
      fst (checkStorageQuota env st) =
        \<lparr>hasQuota =
           (2 * 1024 * 1024 * 1024 <
              int (case q of None \<Rightarrow> 0 | Some n \<Rightarrow> n) - int (case u of None \<Rightarrow> 0 | Some n \<Rightarrow> n)),
         usage = (case u of None \<Rightarrow> 0 | Some n \<Rightarrow> n),
         quota = (case q of None \<Rightarrow> 0 | Some n \<Rightarrow> n)\<rparr>) \<and>
   (hasQuota (fst (checkStorageQuota env st)) \<longleftrightarrow>
      2 * 1024 * 1024 * 1024 <
        int (quota (fst (checkStorageQuota env st))) - int (usage (fst (checkStorageQuota env st))))"
  by (cases "navigatorStorage env")
     (auto simp: checkStorageQuota_def getStorageQuota_def Let_def nullish_def
           split: option.splits)

theorem C8_witness:
  "\<forall>st e.
     fst (checkStorageQuota ((quietEnv zeroDigest)\<lparr>navigatorStorage := NoStorageManager\<rparr>) st) =
       \<lparr>hasQuota = False, usage = 0, quota = 0\<rparr> \<and>
     fst (checkStorageQuota ((quietEnv zeroDigest)\<lparr>navigatorStorage := EstimateRejects e\<rparr>) st) =
       \<lparr>hasQuota = False, usage = 0, quota = 0\<rparr> \<and>
     fst (checkStorageQuota (quietEnv zeroDigest) st) =
       \<lparr>hasQuota = True, usage = 0, quota = 53687091200\<rparr> \<and>
     fst (checkStorageQuota
            ((quietEnv zeroDigest)
               \<lparr>navigatorStorage := Estimate (Some 53687091200) (Some 53687091200)\<rparr>) st) =
       \<lparr>hasQuota = False, usage = 53687091200, quota = 53687091200\<rparr> \<and>
     fst (checkStorageQuota
            ((quietEnv zeroDigest)
               \<lparr>navigatorStorage := Estimate (Some 1073741824) (Some 3221225472)\<rparr>) st) =
       \<lparr>hasQuota = False, usage = 1073741824, quota = 3221225472\<rparr> \<and>
     fst (checkStorageQuota
            ((quietEnv zeroDigest)\<lparr>navigatorStorage := Estimate None None\<rparr>) st) =
       \<lparr>hasQuota = False, usage = 0, quota = 0\<rparr>"
proof (intro allI)
  fix st e
  show "fst (checkStorageQuota ((quietEnv zeroDigest)\<lparr>navigatorStorage := NoStorageManager\<rparr>) st) =
       \<lparr>hasQuota = False, usage = 0, quota = 0\<rparr> \<and>
     fst (checkStorageQuota ((quietEnv zeroDigest)\<lparr>navigatorStorage := EstimateRejects e\<rparr>) st) =
       \<lparr>hasQuota = False, usage = 0, quota = 0\<rparr> \<and>
     fst (checkStorageQuota (quietEnv zeroDigest) st) =
       \<lparr>hasQuota = True, usage = 0, quota = 53687091200\<rparr> \<and>
     fst (checkStorageQuota
            ((quietEnv zeroDigest)
               \<lparr>navigatorStorage := Estimate (Some 53687091200) (Some 53687091200)\<rparr>) st) =
       \<lparr>hasQuota = False, usage = 53687091200, quota = 53687091200\<rparr> \<and>
     fst (checkStorageQuota
            ((quietEnv zeroDigest)
               \<lparr>navigatorStorage := Estimate (Some 1073741824) (Some 3221225472)\<rparr>) st) =
       \<lparr>hasQuota = False, usage = 1073741824, quota = 3221225472\<rparr> \<and>
     fst (checkStorageQuota
            ((quietEnv zeroDigest)\<lparr>navigatorStorage := Estimate None None\<rparr>) st) =
       \<lparr>hasQuota = False, usage = 0, quota = 0\<rparr>"
    using C8_quota_fails_closed [of "(quietEnv zeroDigest)\<lparr>navigatorStorage := NoStorageManager\<rparr>" st]
      C8_quota_fails_closed [of "(quietEnv zeroDigest)\<lparr>navigatorStorage := EstimateRejects e\<rparr>" st]
      C8_quota_fails_closed [of "quietEnv zeroDigest" st]
      C8_quota_fails_closed [of "(quietEnv zeroDigest)
               \<lparr>navigatorStorage := Estimate (Some 53687091200) (Some 53687091200)\<rparr>" st]
      C8_quota_fails_closed [of "(quietEnv zeroDigest)
               \<lparr>navigatorStorage := Estimate (Some 1073741824) (Some 3221225472)\<rparr>" st]
      C8_quota_fails_closed [of "(quietEnv zeroDigest)\<lparr>navigatorStorage := Estimate None None\<rparr>" st]
    by simp
qed

section \<open>verifyModel after an import\<close>

text \<open>
  C10.  In every state the application can reach, the \<^verbatim>\<open>modelStore\<close> table is empty
  (\<^verbatim>\<open>storeModel\<close> is never called); so after an import that \<^verbatim>\<open>importModel\<close>
  completed, \<^verbatim>\<open>isImported\<close> is set, \<^verbatim>\<open>getModel()\<close> finds no record and
  \<^verbatim>\<open>verifyModel\<close> answers false, on every platform.
\<close>

theorem C10_verifyModel_false_after_import:
  assumes "reachable st" and "importModel env file st = (Inr u, st')"
  shows "isImported (modelStatus st') \<and> modelStore st' ''model'' = None \<and>
         fst (verifyModel env' st') = Inr False"
proof -
  from assms(1) have "reachable (snd (importModel env file st))" by (rule reachable.afterImport)
  with assms(2) have "reachable st'" by simp
  then have empty: "modelStore st' = Map.empty" by (rule reachable_modelStore)
  from assms(2) have "importModel_try env file
     (setModelStatus [K_importProgress 0, K_error None, K_verificationStatus (Some Unverified)] st)
     = (Inr u, st')"
    by (simp add: importModel_success_iff)
  then have imported: "isImported (modelStatus st')"
    by (cases rule: importModel_try_success) simp
  from empty imported show ?thesis
    by (simp add: verifyModel_def getModel_def Let_def split: option.splits)
qed

theorem C10_witness:
  "\<forall>h env'. reachable freshState \<and>
     fst (importModel (quietEnv h) zerosFile freshState) = Inr () \<and>
     fst (verifyModel env' (snd (importModel (quietEnv h) zerosFile freshState))) = Inr False"
  using C10_verifyModel_false_after_import [OF reachable.fresh zeros_import_ok]
    zeros_import_ok [of _ freshState] reachable.fresh
  by (metis fst_conv)

section \<open>The write phase\<close>

text \<open>
  C9.  The loop of step 3 always returns.  When it returns normally, the offset it
  ends with is the size of the file, and the writes it issued are exactly the windows
  of the file: the first at offset 0, each slice non-empty and at most 16 MiB long
  (exactly 16 MiB unless it is the last), each next write at the previous offset plus
  the length of the slice just written.  Every one of these slices is then in the chunk
  store under its offset, the records at other keys are as they were, and a store that
  was empty holds exactly the windows, in order.  It leaves the loop by an exception
  only when a write at some offset below the size of the file threw it.
\<close>

theorem C9_write_loop:
  "case writeLoop env file 0 st of
     (Inr offset, st') \<Rightarrow>
       offset = file_size file \<and>
       calls st' = calls st @
         map (\<lambda>(k, c). StoreModelChunk k c) (windows CHUNK_SIZE 0 (content file)) \<and>
       advances CHUNK_SIZE 0 (windows CHUNK_SIZE 0 (content file)) (file_size file) \<and>
       map_of (chunkStore st') =
         map_of (chunkStore st) ++ map_of (windows CHUNK_SIZE 0 (content file)) \<and>
       (chunkStore st = [] \<longrightarrow> chunkStore st' = windows CHUNK_SIZE 0 (content file))
   | (Inl e, st') \<Rightarrow> \<exists>k<file_size file. putFault env k = Some e"
proof -
  obtain r st' where w: "writeLoop env file 0 st = (r, st')"
    by (cases "writeLoop env file 0 st")
  show ?thesis
  proof (cases r)
    case (Inl e)
    with w writeLoop_fault [of env "file" 0 st e st'] show ?thesis by simp
  next
    case (Inr off)
    with w have run: "writeLoop env file 0 st = (Inr off, st')" by simp
    from writeLoop_success [OF run]
    have s: "off = file_size file"
      "calls st' = calls st @
         map (\<lambda>(k, c). StoreModelChunk k c) (windows CHUNK_SIZE 0 (content file))"
      "chunkStore st' =
         fold (\<lambda>(k, c). idb_put k c) (windows CHUNK_SIZE 0 (content file)) (chunkStore st)"
      by simp_all
    have m: "map_of (chunkStore st') =
        map_of (chunkStore st) ++ map_of (windows CHUNK_SIZE 0 (content file))"
      unfolding s(3) by (rule map_of_fold_put) (rule windows_distinct)
    have e: "chunkStore st = [] \<longrightarrow> chunkStore st' = windows CHUNK_SIZE 0 (content file)"
      using writeLoop_chunkStore [OF run] by simp
    from s(1,2) m e w Inr windows_advances [OF CHUNK_SIZE_pos, of 0 "content file"]
    show ?thesis by (simp add: file_size_def)
  qed
qed

theorem C9_witness:
  "\<forall>h. fst (writeLoop (quietEnv h) zerosFile 0 (afterClear freshState)) = Inr (100 * 1024 * 1024) \<and>
     advances CHUNK_SIZE 0 (windows CHUNK_SIZE 0 (content zerosFile)) (100 * 1024 * 1024) \<and>
     map (\<lambda>(k, c). (k, length c))
       (chunkStore (snd (writeLoop (quietEnv h) zerosFile 0 (afterClear freshState)))) =
       [(0, 16777216), (16777216, 16777216), (33554432, 16777216), (50331648, 16777216),
        (67108864, 16777216), (83886080, 16777216), (100663296, 4194304)]"
proof (intro allI)
  fix h
  let ?st = "afterClear freshState"
  have "case writeLoop (quietEnv h) zerosFile 0 ?st of
     (Inr offset, st') \<Rightarrow>
       offset = file_size zerosFile \<and>
       calls st' = calls ?st @
         map (\<lambda>(k, c). StoreModelChunk k c) (windows CHUNK_SIZE 0 (content zerosFile)) \<and>
       advances CHUNK_SIZE 0 (windows CHUNK_SIZE 0 (content zerosFile)) (file_size zerosFile) \<and>
       map_of (chunkStore st') =
         map_of (chunkStore ?st) ++ map_of (windows CHUNK_SIZE 0 (content zerosFile)) \<and>
       (chunkStore ?st = [] \<longrightarrow> chunkStore st' = windows CHUNK_SIZE 0 (content zerosFile))
   | (Inl e, st') \<Rightarrow> \<exists>k<file_size zerosFile. putFault (quietEnv h) k = Some e"
    by (rule C9_write_loop)
  then have "fst (writeLoop (quietEnv h) zerosFile 0 ?st) = Inr (file_size zerosFile) \<and>
     advances CHUNK_SIZE 0 (windows CHUNK_SIZE 0 (content zerosFile)) (file_size zerosFile) \<and>
     chunkStore (snd (writeLoop (quietEnv h) zerosFile 0 ?st)) =
       windows CHUNK_SIZE 0 (content zerosFile)"
    by (auto split: prod.splits sum.splits)
  then show "fst (writeLoop (quietEnv h) zerosFile 0 ?st) = Inr (100 * 1024 * 1024) \<and>
     advances CHUNK_SIZE 0 (windows CHUNK_SIZE 0 (content zerosFile)) (100 * 1024 * 1024) \<and>
     map (\<lambda>(k, c). (k, length c)) (chunkStore (snd (writeLoop (quietEnv h) zerosFile 0 ?st))) =
       [(0, 16777216), (16777216, 16777216), (33554432, 16777216), (50331648, 16777216),
        (67108864, 16777216), (83886080, 16777216), (100663296, 4194304)]"
    using zeros_windows by (simp add: file_size_def zerosFile_def)
qed

text \<open>
  C4.  Written by the loop into an empty chunk store, a file of any length reads back
  from \<^verbatim>\<open>getAll()\<close> as its own bytes: the concatenation of the stored chunks is
  the content of the file, the keys are strictly ascending, and the chunks tile the
  file from offset 0 to its length without gap or overlap.
\<close>

theorem C4_chunk_round_trip:
  assumes "chunkStore st = []" and "writeLoop env file 0 st = (Inr offset, st')"
  shows "concat (idb_getAll (chunkStore st')) = content file \<and>
         sorted_wrt (<) (map fst (chunkStore st')) \<and>
         advances CHUNK_SIZE 0 (chunkStore st') (length (content file))"
proof -
  have c: "chunkStore st' = windows CHUNK_SIZE 0 (content file)"
    using assms(2,1) by (rule writeLoop_chunkStore)
  show ?thesis
    using concat_windows [OF CHUNK_SIZE_pos, of 0 "content file"]
      windows_sorted [of CHUNK_SIZE 0 "content file"]
      windows_advances [OF CHUNK_SIZE_pos, of 0 "content file"]
    by (simp add: c idb_getAll_def)
qed

theorem C4_witness:
  "\<forall>h. chunkStore (afterClear freshState) = [] \<and>
     fst (writeLoop (quietEnv h) zerosFile 0 (afterClear freshState)) = Inr (100 * 1024 * 1024) \<and>
     concat (idb_getAll (chunkStore (snd (writeLoop (quietEnv h) zerosFile 0 (afterClear freshState))))) =
       replicate (100 * 1024 * 1024) 0 \<and>
     map fst (chunkStore (snd (writeLoop (quietEnv h) zerosFile 0 (afterClear freshState)))) =
       [0, 16777216, 33554432, 50331648, 67108864, 83886080, 100663296]"
proof (intro allI)
  fix h
  let ?w = "writeLoop (quietEnv h) zerosFile 0 (afterClear freshState)"
  have n: "file_size zerosFile = 100 * 1024 * 1024"
    by (simp add: file_size_def zerosFile_def)
  have r: "fst ?w = Inr (file_size zerosFile)"
    by (rule writeLoop_returns) simp_all
  then have run: "?w = (Inr (file_size zerosFile), snd ?w)"
    by (simp add: prod_eq_iff)
  have e: "chunkStore (afterClear freshState) = []" by simp
  have c: "chunkStore (snd ?w) = windows CHUNK_SIZE 0 (content zerosFile)"
    using run e by (rule writeLoop_chunkStore)
  have k: "map fst (chunkStore (snd ?w)) =
      [0, 16777216, 33554432, 50331648, 67108864, 83886080, 100663296]"
    using arg_cong [OF zeros_windows, of "map fst"] by (simp add: c comp_def case_prod_unfold)
  from C4_chunk_round_trip [OF e run] r n k
  show "chunkStore (afterClear freshState) = [] \<and>
     fst ?w = Inr (100 * 1024 * 1024) \<and>
     concat (idb_getAll (chunkStore (snd ?w))) = replicate (100 * 1024 * 1024) 0 \<and>
     map fst (chunkStore (snd ?w)) =
       [0, 16777216, 33554432, 50331648, 67108864, 83886080, 100663296]"
    by (simp add: zerosFile_def)
qed

section \<open>Progress\<close>

text \<open>
  C5.  The progress values the write loop publishes are, in order, an initial segment
  of \<open>(bytesWrittenSoFar / totalBytes) * 80\<close> taken after each chunk (all of them when
  the loop returns normally); a completed import publishes 0, then these values, then
  90 after hashing and 100 at the end.  For a file of 32 MiB whose first write
  succeeds, the first value the loop publishes is 40.  (\<^verbatim>\<open>importModel\<close> itself
  rejects a file of 32 MiB as too small; the instance is about the loop.)
\<close>

theorem C5_progress_values:
  "(case writeLoop env file 0 st of
      (Inr offset, st1) \<Rightarrow>
        sessionProgress st st1 =
          writeProgress (file_size file) 0 (map snd (windows CHUNK_SIZE 0 (content file)))
    | (Inl e, st1) \<Rightarrow>
        (\<exists>m. sessionProgress st st1 =
           take m (writeProgress (file_size file) 0
                     (map snd (windows CHUNK_SIZE 0 (content file)))))) \<and>
   (importModel env file st = (Inr u, st') \<longrightarrow>
      sessionProgress st st' =
        0 # writeProgress (file_size file) 0 (map snd (windows CHUNK_SIZE 0 (content file))) @
          [90, 100]) \<and>
   (file_size file = 32 * 1024 * 1024 \<and> putFault env 0 = None \<longrightarrow>
      take 1 (sessionProgress st (snd (writeLoop env file 0 st))) = [40])"
proof (intro conjI impI)
  obtain r st1 where w: "writeLoop env file 0 st = (r, st1)"
    by (cases "writeLoop env file 0 st")
  show "case writeLoop env file 0 st of
      (Inr offset, st1) \<Rightarrow>
        sessionProgress st st1 =
          writeProgress (file_size file) 0 (map snd (windows CHUNK_SIZE 0 (content file)))
    | (Inl e, st1) \<Rightarrow>
        (\<exists>m. sessionProgress st st1 =
           take m (writeProgress (file_size file) 0
                     (map snd (windows CHUNK_SIZE 0 (content file)))))"
  proof (cases r)
    case (Inl e)
    with writeLoop_progress_prefix [OF w] w show ?thesis by simp
  next
    case (Inr off)
    with w have "writeLoop env file 0 st = (Inr off, st1)" by simp
    from writeLoop_success [OF this] obtain ps where
      "published st1 = published st @ ps"
      "map importProgress ps =
         writeProgress (file_size file) 0 (map snd (windows CHUNK_SIZE 0 (content file)))"
      by auto
    with w Inr show ?thesis by (simp add: sessionProgress_def)
  qed
next
  assume "importModel env file st = (Inr u, st')"
  then show "sessionProgress st st' =
        0 # writeProgress (file_size file) 0 (map snd (windows CHUNK_SIZE 0 (content file))) @
          [90, 100]"
    by (rule importModel_success_state(3))
next
  assume a: "file_size file = 32 * 1024 * 1024 \<and> putFault env 0 = None"
  then have "0 < file_size file" by simp
  from writeLoop_first_progress [OF this, of env st] a
  show "take 1 (sessionProgress st (snd (writeLoop env file 0 st))) = [40]"
    by (simp add: file_size_def CHUNK_SIZE_def)
qed

theorem C5_witness:
  "\<forall>h st. fst (importModel (quietEnv h) zerosFile st) = Inr () \<and>
     sessionProgress st (snd (importModel (quietEnv h) zerosFile st)) =
       [0, 64 / 5, 128 / 5, 192 / 5, 256 / 5, 64, 384 / 5, 80, 90, 100] \<and>
     take 1 (sessionProgress st
       (snd (writeLoop (quietEnv h)
               \<lparr>name = ''model.gguf'', content = replicate (32 * 1024 * 1024) 0\<rparr> 0 st))) = [40]"
proof (intro allI)
  fix h st
  let ?f32 = "\<lparr>name = ''model.gguf'', content = replicate (32 * 1024 * 1024) 0\<rparr>"
  let ?st' = "snd (importModel (quietEnv h) zerosFile st)"
  have a: "importModel (quietEnv h) zerosFile st = (Inr (), ?st') \<longrightarrow>
      sessionProgress st ?st' =
        0 # writeProgress (file_size zerosFile) 0
              (map snd (windows CHUNK_SIZE 0 (content zerosFile))) @ [90, 100]"
    by (rule C5_progress_values [THEN conjunct2, THEN conjunct1])
  have b: "file_size ?f32 = 32 * 1024 * 1024 \<and> putFault (quietEnv h) 0 = None \<longrightarrow>
      take 1 (sessionProgress st (snd (writeLoop (quietEnv h) ?f32 0 st))) = [40]"
    by (rule C5_progress_values [THEN conjunct2, THEN conjunct2])
  have n: "file_size ?f32 = 32 * 1024 * 1024" by (simp add: file_size_def)
  from a b n zeros_import_ok [of h st] zeros_progress
  show "fst (importModel (quietEnv h) zerosFile st) = Inr () \<and>
     sessionProgress st ?st' =
       [0, 64 / 5, 128 / 5, 192 / 5, 256 / 5, 64, 384 / 5, 80, 90, 100] \<and>
     take 1 (sessionProgress st (snd (writeLoop (quietEnv h) ?f32 0 st))) = [40]"
    by (metis append_Cons append_Nil fst_conv quietEnv_fields(3))
qed

text \<open>
  C2, as the code has it.  In a session that \<^verbatim>\<open>importModel\<close> completes, the
  published progress values are non-decreasing and the last one is 100.  In a session
  that fails, the values published before the failure are non-decreasing, and the
  \<^verbatim>\<open>catch\<close> block then publishes 0: the progress is reset, not halted.
\<close>

theorem C2_progress_order:
  "case importModel env file st of
     (Inr u, st') \<Rightarrow>
       sessionProgress st st' \<noteq> [] \<and> sorted (sessionProgress st st') \<and>
       last (sessionProgress st st') = 100
   | (Inl e, st') \<Rightarrow>
       sessionProgress st st' \<noteq> [] \<and> sorted (butlast (sessionProgress st st')) \<and>
       last (sessionProgress st st') = 0 \<and> importProgress (modelStatus st') = 0"
proof -
  let ?st0 = "setModelStatus
     [K_importProgress 0, K_error None, K_verificationStatus (Some Unverified)] st"
  obtain r st1 where t: "importModel_try env file ?st0 = (r, st1)"
    by (cases "importModel_try env file ?st0")
  from importModel_try_published [OF t] obtain ps where ps:
    "published st1 = published ?st0 @ ps" "sorted (map importProgress ps)"
    "list_all (\<lambda>p. 0 \<le> importProgress p) ps"
    "case r of Inr u \<Rightarrow> ps \<noteq> [] \<and> importProgress (last ps) = 100 | Inl e \<Rightarrow> True"
    by blast
  have p0: "published ?st0 = published st @ [modelStatus ?st0]"
    "importProgress (modelStatus ?st0) = 0"
    by simp_all
  have s0: "sorted (0 # map importProgress ps)"
    using ps(2,3) by (auto simp: list_all_iff)
  show ?thesis
  proof (cases r)
    case (Inr u)
    with t have i: "importModel env file st = (Inr u, st1)" by (simp add: importModel_def)
    have "sessionProgress st st1 = 0 # map importProgress ps"
      using ps(1) p0 by (simp add: sessionProgress_def)
    with s0 ps(4) Inr i show ?thesis by (simp add: last_map)
  next
    case (Inl e)
    let ?fin = "setModelStatus
        [K_error (Some (case e of Error message \<Rightarrow> message | NonError \<Rightarrow> IMPORT_ERROR)),
         K_importProgress 0, K_verificationStatus (Some Failed)] st1"
    from Inl t have i: "importModel env file st = (Inl e, ?fin)" by (simp add: importModel_def)
    have "sessionProgress st ?fin = (0 # map importProgress ps) @ [0]"
      using ps(1) p0 by (simp add: sessionProgress_def)
    with s0 i show ?thesis by (simp del: append.simps add: butlast_snoc)
  qed
qed

theorem C2_witness:
  "\<forall>h st. fst (importModel (quietEnv h) zerosFile st) = Inr () \<and>
     sorted (sessionProgress st (snd (importModel (quietEnv h) zerosFile st))) \<and>
     last (sessionProgress st (snd (importModel (quietEnv h) zerosFile st))) = 100"
proof (intro allI)
  fix h st
  have "case importModel (quietEnv h) zerosFile st of
     (Inr u, st') \<Rightarrow>
       sessionProgress st st' \<noteq> [] \<and> sorted (sessionProgress st st') \<and>
       last (sessionProgress st st') = 100
   | (Inl e, st') \<Rightarrow>
       sessionProgress st st' \<noteq> [] \<and> sorted (butlast (sessionProgress st st')) \<and>
       last (sessionProgress st st') = 0 \<and> importProgress (modelStatus st') = 0"
    by (rule C2_progress_order)
  moreover have "fst (importModel (quietEnv h) zerosFile st) = Inr ()"
    using zeros_import_ok [of h st] by (metis fst_conv)
  ultimately show "fst (importModel (quietEnv h) zerosFile st) = Inr () \<and>
     sorted (sessionProgress st (snd (importModel (quietEnv h) zerosFile st))) \<and>
     last (sessionProgress st (snd (importModel (quietEnv h) zerosFile st))) = 100"
    by (auto split: prod.splits sum.splits)
qed

text \<open>
  The claim as the specification states it fails when the second write of a 100 MiB
  file throws: the session publishes 0, then 64/5 after the first chunk, then 0 from
  the \<^verbatim>\<open>catch\<close> block.
\<close>

theorem C2_counterexample:
  "fst (importModel putFailEnv zerosFile freshState) = Inl (Error ''put failed'') \<and>
   sessionProgress freshState (snd (importModel putFailEnv zerosFile freshState)) = [0, 64 / 5, 0] \<and>
   \<not> sorted (sessionProgress freshState (snd (importModel putFailEnv zerosFile freshState)))"
  by (simp add: run_defs putFailEnv_def freshState_def initialStatus_def)

section \<open>A failed import and the status of the previous one\<close>

text \<open>
  C1, as the code has it.  An import that fails leaves \<^verbatim>\<open>fileName\<close>,
  \<^verbatim>\<open>fileSize\<close>, \<^verbatim>\<open>sha256\<close>, \<^verbatim>\<open>isImported\<close> and \<^verbatim>\<open>isLoaded\<close> of the status as they
  were, and the \<^verbatim>\<open>modelStore\<close> table too; but it overwrites \<^verbatim>\<open>verificationStatus\<close>
  with \<^verbatim>\<open>'failed'\<close>, \<^verbatim>\<open>importProgress\<close> with 0 and \<^verbatim>\<open>error\<close> with the message of
  what was thrown.  \<^verbatim>\<open>resetModel\<close> is what erases
  \<^verbatim>\<open>fileName\<close>, \<^verbatim>\<open>fileSize\<close> and \<^verbatim>\<open>sha256\<close>.
\<close>

theorem C1_failed_import_keeps_fields:
  assumes "importModel env file st = (Inl e, st')"
  shows "fileName (modelStatus st') = fileName (modelStatus st) \<and>
         fileSize (modelStatus st') = fileSize (modelStatus st) \<and>
         sha256 (modelStatus st') = sha256 (modelStatus st) \<and>
         isImported (modelStatus st') = isImported (modelStatus st) \<and>
         isLoaded (modelStatus st') = isLoaded (modelStatus st) \<and>
         verificationStatus (modelStatus st') = Some Failed \<and>
         importProgress (modelStatus st') = 0 \<and>
         error (modelStatus st') =
           Some (case e of Error message \<Rightarrow> message | NonError \<Rightarrow> IMPORT_ERROR) \<and>
         modelStore st' = modelStore st \<and>
         fileName (modelStatus (snd (resetModel env st'))) = None \<and>
         fileSize (modelStatus (snd (resetModel env st'))) = None \<and>
         sha256 (modelStatus (snd (resetModel env st'))) = None"
proof -
  let ?st0 = "setModelStatus
     [K_importProgress 0, K_error None, K_verificationStatus (Some Unverified)] st"
  from assms obtain st1 where t: "importModel_try env file ?st0 = (Inl e, st1)"
    and st': "st' = setModelStatus
             [K_error (Some (case e of Error message \<Rightarrow> message | NonError \<Rightarrow> IMPORT_ERROR)),
              K_importProgress 0, K_verificationStatus (Some Failed)] st1"
    by (rule importModel_failure)
  define x where "x = importProgress (modelStatus st1)"
  from importModel_try_failure_frame [OF t]
  have "modelStatus st1 = (modelStatus ?st0)\<lparr>importProgress := x\<rparr>"
    unfolding x_def .
  then have ms: "modelStatus st1 =
      (modelStatus st)\<lparr>importProgress := x, error := None,
         verificationStatus := Some Unverified\<rparr>"
    by simp
  from importModel_try_modelStore [OF t] have "modelStore st1 = modelStore st" by simp
  with ms show ?thesis
    by (simp add: st' resetModel_state initialStatus_def)
qed

theorem C1_witness:
  "fst (importModel hashFailEnv zerosFile (importedState zeroDigest)) =
     Inl (Error ''digest failed'') \<and>
   fileName (modelStatus (snd (importModel hashFailEnv zerosFile (importedState zeroDigest)))) =
     Some ''model.gguf'' \<and>
   fileSize (modelStatus (snd (importModel hashFailEnv zerosFile (importedState zeroDigest)))) =
     Some 104857600 \<and>
   sha256 (modelStatus (snd (importModel hashFailEnv zerosFile (importedState zeroDigest)))) =
     Some (concat (replicate 32 ''00''))"
proof -
  let ?r = "importModel hashFailEnv zerosFile (importedState zeroDigest)"
  have "?r = (Inl (Error ''digest failed''), snd ?r)"
    using hashFail_import [of "importedState zeroDigest"] by (simp add: prod_eq_iff)
  from C1_failed_import_keeps_fields [OF this] hashFail_import [of "importedState zeroDigest"]
  show ?thesis by (simp add: zeros_status)
qed

text \<open>
  The claim as the specification states it fails at the Hashing stage: after a
  completed import whose status is \<^verbatim>\<open>'unverified'\<close>, a second import whose digest
  computation throws leaves the status \<^verbatim>\<open>'failed'\<close>.
\<close>

theorem C1_counterexample:
  "verificationStatus (modelStatus (importedState zeroDigest)) = Some Unverified \<and>
   fst (importModel hashFailEnv zerosFile (importedState zeroDigest)) =
     Inl (Error ''digest failed'') \<and>
   verificationStatus
     (modelStatus (snd (importModel hashFailEnv zerosFile (importedState zeroDigest)))) =
     Some Failed"
  by (simp add: zeros_status hashFail_import)
     (simp add: run_defs hashFailEnv_def)

section \<open>Classification\<close>



section \<open>Reset\<close>

text \<open>
  C3.  \<^verbatim>\<open>resetModel\<close> after a completed import of the 100 MiB sample file: it returns
  without an error and the status is the initial one, but the only storage call it
  makes is \<^verbatim>\<open>deleteModel\<close>, and the chunk store still holds all 100 MiB of the file.
\<close>

theorem C3_reset_keeps_chunks:
  "fst (resetModel (quietEnv zeroDigest) (importedState zeroDigest)) = Inr () \<and>
   modelStatus (snd (resetModel (quietEnv zeroDigest) (importedState zeroDigest))) = initialStatus \<and>
   calls (snd (resetModel (quietEnv zeroDigest) (importedState zeroDigest))) =
     calls (importedState zeroDigest) @ [DeleteModel] \<and>
   chunkStore (snd (resetModel (quietEnv zeroDigest) (importedState zeroDigest))) =
     chunkStore (importedState zeroDigest) \<and>
   concat (idb_getAll (chunkStore (snd (resetModel (quietEnv zeroDigest) (importedState zeroDigest))))) =
     content zerosFile \<and>
   length (content zerosFile) = 100 * 1024 * 1024"
proof -
  have "chunkStore (importedState zeroDigest) = windows CHUNK_SIZE 0 (content zerosFile)"
    unfolding importedState_def
    by (rule importModel_success_state(1) [OF zeros_import_ok])
  then have "concat (idb_getAll (chunkStore (importedState zeroDigest))) = content zerosFile"
    using concat_windows [OF CHUNK_SIZE_pos, of 0 "content zerosFile"] by (simp add: idb_getAll_def)
  then show ?thesis
    by (simp add: resetModel_never_errors resetModel_state zerosFile_def)
qed

end
